theory Spec2Isabelle
  imports Main "HOL-Library.Word"
begin

section \<open>Common types\<close>

text \<open>
  Go's \<^verbatim>\<open>Hash\<close> and \<^verbatim>\<open>Trytes\<close> are strings. \<^verbatim>\<open>uint64\<close> and \<^verbatim>\<open>int64\<close> are both
  64-bit words: \<open>+\<close> and unary \<open>-\<close> wrap, \<open>unat\<close> reads a word as \<^verbatim>\<open>uint64\<close>,
  \<open>sint\<close> as \<^verbatim>\<open>int64\<close>, and the conversions \<^verbatim>\<open>int64(u)\<close>, \<^verbatim>\<open>uint64(i)\<close> between the
  two keep the bits.
\<close>

type_synonym Hash = string
type_synonym Trytes = string
type_synonym u64 = "64 word"
type_synonym i64 = "64 word"

text \<open>
  Every error value the modelled code returns is a constructor. \<open>ErrKeyNotFound\<close> is
  \<^verbatim>\<open>badger.ErrKeyNotFound\<close>, \<open>ErrJSON\<close> an error of \<^verbatim>\<open>encoding/json\<close>,
  \<open>ErrExternal\<close> an error value handed back by a collaborator outside the modelled
  files (validators, node client, checksum and signing primitives). \<open>Panic\<close> is a Go
  run-time panic (nil dereference, index out of range): the call returns no value at all.
\<close>

datatype error =
    ErrInsufficientBalance
  | ErrSendingBackToInputs
  | ErrInvalidRemainderAddress
  | ErrInvalidTailTransaction
  | ErrAddrIndexNotFound
  | ErrPendingTransferNotFound
  | ErrKeyNotFound
  | ErrJSON
  | ErrExternal string
  | Panic string

subsection \<open>The conversion through float64\<close>

text \<open>
  Both files take absolute values as \<^verbatim>\<open>math.Abs(float64(x))\<close>. \<^verbatim>\<open>float64(x)\<close> of an
  \<^verbatim>\<open>int64\<close> rounds to the nearest value with a 53-bit significand, ties to even; the
  result is again an integer. \<open>float64\<close> computes that integer: below \<open>2 ^ 53\<close> in
  magnitude the conversion is exact, above it the low \<open>k\<close> bits are rounded away.
\<close>

fun bitlen :: "nat \<Rightarrow> nat" where
  "bitlen n = (if n = 0 then 0 else Suc (bitlen (n div 2)))"

definition float64 :: "int \<Rightarrow> int" where
  "float64 x =
     (let n = nat \<bar>x\<bar> in
      if n < 2 ^ 53 then x
      else
        let k = bitlen n - 53;
            q = n div 2 ^ k;
            r = n mod 2 ^ k;
            h = 2 ^ (k - 1);
            q' = (if h < r \<or> (r = h \<and> odd q) then q + 1 else q)
        in sgn x * int (q' * 2 ^ k))"

text \<open>\<^verbatim>\<open>uint64(math.Abs(float64(x)))\<close> for an \<^verbatim>\<open>int64\<close> \<open>x\<close>.\<close>

definition absU64 :: "i64 \<Rightarrow> u64" where
  "absU64 x = word_of_int \<bar>float64 (sint x)\<bar>"

section \<open>Account state store (account/badger.go)\<close>

text \<open>
  \<^verbatim>\<open>AccountState\<close> and \<^verbatim>\<open>PendingTransfer\<close> are declared outside the modelled file; their
  fields are the ones badger.go reads and writes. The essence a pending transfer keeps of
  its bundle has the abstract type \<open>'e\<close>.
\<close>

record 'e PendingTransfer =
  Essence :: 'e
  Tails :: "Hash list"

record 'e AccountState =
  UsedAddresses :: "i64 list"
  PendingTransfers :: "Hash \<rightharpoonup> 'e PendingTransfer"
  lastKeyIndex :: u64

text \<open>
  Modelled from the spec: \<^verbatim>\<open>newaccountstate\<close> is not in the modelled files. The spec
  (sections 3 and 8) has a fresh account state with empty \<open>usedAddresses\<close> and empty
  \<open>pendingTransfers\<close>.
\<close>

definition newaccountstate :: "'e AccountState" where
  "newaccountstate = \<lparr>UsedAddresses = [], PendingTransfers = Map.empty, lastKeyIndex = 0\<rparr>"

text \<open>
  Modelled from the spec: \<^verbatim>\<open>trytesToPendingTransfer\<close> is not in the modelled files. The
  spec (section 4.1) derives the pending transfer from the bundle's essence fields, and
  its tails are \<open>[tailTx]\<close> once \<^verbatim>\<open>AddPendingTransfer\<close> has appended \<open>tailTx\<close>: the
  derived value has no tails of its own. The derivation of the essence is the parameter
  \<open>ess\<close>.
\<close>

definition trytesToPendingTransfer :: "(Trytes list \<Rightarrow> 'e) \<Rightarrow> Trytes list \<Rightarrow> 'e PendingTransfer" where
  "trytesToPendingTransfer ess bundleTrytes = \<lparr>Essence = ess bundleTrytes, Tails = []\<rparr>"

text \<open>
  The key-value store maps an account id to the stored bytes \<open>'b\<close>. \<^verbatim>\<open>json.Marshal\<close> and
  \<^verbatim>\<open>json.Unmarshal\<close> (into a fresh \<^verbatim>\<open>newaccountstate()\<close>) are parameters; \<open>None\<close> is
  their error. A storage transaction is a function from the store to a result and the
  store it leaves: a transaction whose body returns an error commits nothing.
\<close>

type_synonym 'b store = "string \<rightharpoonup> 'b"

record ('b, 'e) codec =
  Marshal :: "'e AccountState \<Rightarrow> 'b option"
  Unmarshal :: "'b \<Rightarrow> 'e AccountState option"

definition mutate ::
  "('b, 'e) codec \<Rightarrow> 'b store \<Rightarrow> string \<Rightarrow> ('e AccountState \<Rightarrow> error + 'e AccountState)
     \<Rightarrow> error option \<times> 'b store" where
  "mutate c db accId mutFunc =
     (case db accId of
        None \<Rightarrow> (Some ErrKeyNotFound, db)
      | Some accountBytes \<Rightarrow>
          (case Unmarshal c accountBytes of
             None \<Rightarrow> (Some ErrJSON, db)
           | Some state \<Rightarrow>
               (case mutFunc state of
                  Inl err \<Rightarrow> (Some err, db)
                | Inr state' \<Rightarrow>
                    (case Marshal c state' of
                       None \<Rightarrow> (Some ErrJSON, db)
                     | Some newStateBytes \<Rightarrow> (None, db(accId \<mapsto> newStateBytes))))))"

definition read ::
  "('b, 'e) codec \<Rightarrow> 'b store \<Rightarrow> string \<Rightarrow> ('e AccountState option \<Rightarrow> error + 'r) \<Rightarrow> error + 'r" where
  "read c db accId readFunc =
     (case db accId of
        None \<Rightarrow> readFunc None
      | Some accountBytes \<Rightarrow>
          (case Unmarshal c accountBytes of
             None \<Rightarrow> Inl ErrJSON
           | Some state \<Rightarrow> readFunc (Some state)))"

definition LoadAccount ::
  "('b, 'e) codec \<Rightarrow> 'b store \<Rightarrow> string \<Rightarrow> (error + 'e AccountState) \<times> 'b store" where
  "LoadAccount c db accId =
     (case read c db accId (\<lambda>st. Inr st) of
        Inl err \<Rightarrow> (Inl err, db)
      | Inr (Some state) \<Rightarrow>
          (if length (UsedAddresses state) > 0
           then (Inr (state\<lparr>lastKeyIndex := absU64 (last (UsedAddresses state))\<rparr>), db)
           else (Inr state, db))
      | Inr None \<Rightarrow>
          (case Marshal c newaccountstate of
             None \<Rightarrow> (Inl ErrJSON, db)
           | Some newStateBytes \<Rightarrow> (Inr newaccountstate, db(accId \<mapsto> newStateBytes))))"

definition RemoveAccount :: "'b store \<Rightarrow> string \<Rightarrow> error option \<times> 'b store" where
  "RemoveAccount db accId = (None, db(accId := None))"

definition MarkDepositAddresses ::
  "('b, 'e) codec \<Rightarrow> 'b store \<Rightarrow> string \<Rightarrow> u64 list \<Rightarrow> error option \<times> 'b store" where
  "MarkDepositAddresses c db accId indices =
     mutate c db accId
       (\<lambda>state. Inr (state\<lparr>UsedAddresses := UsedAddresses state @ map (\<lambda>index. - index) indices\<rparr>))"

text \<open>
  The inner loop of \<^verbatim>\<open>AddPendingTransfer\<close>: the first entry whose absolute value is
  \<open>index\<close> is overwritten with \<^verbatim>\<open>int64(usedIndexU)\<close>; \<open>None\<close> when the loop ends with
  \<^verbatim>\<open>found == false\<close>.
\<close>

fun markSpent :: "u64 \<Rightarrow> i64 list \<Rightarrow> i64 list option" where
  "markSpent index [] = None"
| "markSpent index (usedIndex # rest) =
     (if absU64 usedIndex = index then Some (absU64 usedIndex # rest)
      else map_option ((#) usedIndex) (markSpent index rest))"

fun markAllSpent :: "u64 list \<Rightarrow> i64 list \<Rightarrow> error + i64 list" where
  "markAllSpent [] used = Inr used"
| "markAllSpent (index # indices) used =
     (case markSpent index used of
        None \<Rightarrow> Inl ErrAddrIndexNotFound
      | Some used' \<Rightarrow> markAllSpent indices used')"

definition addPendingTransferMut ::
  "(Trytes list \<Rightarrow> 'e) \<Rightarrow> Hash \<Rightarrow> Trytes list \<Rightarrow> u64 list \<Rightarrow> 'e AccountState
     \<Rightarrow> error + 'e AccountState" where
  "addPendingTransferMut ess tailTx bundleTrytes indices state =
     (case markAllSpent indices (UsedAddresses state) of
        Inl err \<Rightarrow> Inl err
      | Inr used' \<Rightarrow>
          (let pendingTransfer = trytesToPendingTransfer ess bundleTrytes;
               pendingTransfer = pendingTransfer\<lparr>Tails := Tails pendingTransfer @ [tailTx]\<rparr>
           in Inr (state\<lparr>UsedAddresses := used',
                         PendingTransfers := (PendingTransfers state)(tailTx \<mapsto> pendingTransfer)\<rparr>)))"

definition AddPendingTransfer ::
  "('b, 'e) codec \<Rightarrow> (Trytes list \<Rightarrow> 'e) \<Rightarrow> 'b store \<Rightarrow> string \<Rightarrow> Hash \<Rightarrow> Trytes list \<Rightarrow> u64 list
     \<Rightarrow> error option \<times> 'b store" where
  "AddPendingTransfer c ess db accId tailTx bundleTrytes indices =
     mutate c db accId (addPendingTransferMut ess tailTx bundleTrytes indices)"

definition RemovePendingTransfer ::
  "('b, 'e) codec \<Rightarrow> 'b store \<Rightarrow> string \<Rightarrow> Hash \<Rightarrow> error option \<times> 'b store" where
  "RemovePendingTransfer c db accId tailTx =
     mutate c db accId
       (\<lambda>state. case PendingTransfers state tailTx of
                  None \<Rightarrow> Inl ErrPendingTransferNotFound
                | Some _ \<Rightarrow> Inr (state\<lparr>PendingTransfers := (PendingTransfers state)(tailTx := None)\<rparr>))"

definition AddTailHash ::
  "('b, 'e) codec \<Rightarrow> 'b store \<Rightarrow> string \<Rightarrow> Hash \<Rightarrow> Hash \<Rightarrow> error option \<times> 'b store" where
  "AddTailHash c db accId tailTx newTailTxHash =
     mutate c db accId
       (\<lambda>state. case PendingTransfers state tailTx of
                  None \<Rightarrow> Inl ErrPendingTransferNotFound
                | Some pendingTransfer \<Rightarrow>
                    Inr (state\<lparr>PendingTransfers := (PendingTransfers state)
                           (tailTx \<mapsto> pendingTransfer\<lparr>Tails := Tails pendingTransfer @ [newTailTxHash]\<rparr>)\<rparr>))"

text \<open>A codec for concrete runs: the stored bytes are the state itself.\<close>

definition idCodec :: "('e AccountState, 'e) codec" where
  "idCodec = \<lparr>Marshal = Some, Unmarshal = Some\<rparr>"

section \<open>Transfer engine (api/wrappers.go)\<close>

subsection \<open>Data\<close>

text \<open>
  The records carry the fields the modelled functions read and write. \<open>Input\<close> is the
  Go struct \<^verbatim>\<open>Address\<close> (an address with its security level, key index and balance);
  \<^verbatim>\<open>SecurityLevel\<close> is a Go \<^verbatim>\<open>int\<close>.
\<close>

record Transaction =
  Address :: Hash
  Value :: i64
  Tag :: Trytes
  Timestamp :: u64
  CurrentIndex :: u64
  LastIndex :: u64
  TrunkTransaction :: Hash
  SignatureMessageFragment :: Trytes

record Transfer =
  Address :: Hash
  Value :: u64
  Tag :: Trytes
  Message :: Trytes

record BundleEntry =
  Address :: Hash
  Value :: i64
  Length :: u64
  Timestamp :: u64
  Tag :: Trytes
  SignatureMessageFragments :: "Trytes list"

record Input =
  Address :: Hash
  Security :: i64
  KeyIndex :: u64
  Balance :: u64

record Inputs =
  Inputs :: "Input list"
  TotalBalance :: u64

record GetInputOptions =
  Start :: u64
  End :: "u64 option"
  Threshold :: "u64 option"
  Security :: i64

record GetNewAddressOptions =
  Index :: u64
  Security :: i64
  Total :: "u64 option"
  ReturnAll :: bool

record PrepareTransfersOptions =
  Inputs :: "Input list"
  RemainderAddress :: "Hash option"
  Security :: i64
  Timestamp :: "u64 option"

text \<open>
  The collaborators of the modelled functions that live outside the modelled files, and
  \<^verbatim>\<open>GetNewAddress\<close> (an unbounded scan over node answers), are fields of one record;
  a function that can fail returns \<open>error + _\<close> or \<open>error option\<close>.
  \<^item> \<open>ValidateSeedSecurity\<close>: \<^verbatim>\<open>Validate(ValidateSeed(seed), ValidateSecurityLevel(sec))\<close>;
  \<^item> \<open>ValidateGetInputs\<close>: the same with \<^verbatim>\<open>ValidateStartEndOptions\<close>;
  \<^item> \<open>ValidateHashes\<close>, \<open>ValidateTransactionHashes\<close>: the validators of one hash;
  \<^item> \<open>RemoveChecksum\<close>: \<^verbatim>\<open>checksum.RemoveChecksum\<close>;
  \<^item> \<open>GetNewAddress\<close>, \<open>GetBalances\<close> (the \<^verbatim>\<open>Balances\<close> field of the answer),
    \<open>WereAddressesSpentFrom\<close>, \<open>GetTrytes\<close>: the node queries;
  \<^item> \<open>AsTransactionObject\<close>, \<open>ValidBundle\<close>: parsing and bundle validation;
  \<^item> \<open>getInputDefaultOptions\<close>, \<open>ToGetNewAddressOptions\<close>,
    \<open>getPrepareTransfersDefaultOptions\<close>: the option helpers;
  \<open>MessageFragments\<close> splits a transfer's message into signature-message fragments;
  \<open>Now\<close> is the clock read by \<^verbatim>\<open>time.Now()\<close>, in seconds;
  \<open>FinalizeAndSign\<close> stands for lines 619-674 of \<^verbatim>\<open>PrepareTransfers\<close>, which only call
  \<^verbatim>\<open>bundle.Finalize\<close>, the \<^verbatim>\<open>signing\<close> primitives, \<^verbatim>\<open>bundle.AddTrytes\<close> and
  \<^verbatim>\<open>transaction.MustFinalTransactionTrytes\<close> on the seed, the assembled transactions and
  the inputs.
\<close>

record API =
  ValidateSeedSecurity :: "Trytes \<Rightarrow> i64 \<Rightarrow> error option"
  ValidateGetInputs :: "Trytes \<Rightarrow> GetInputOptions \<Rightarrow> error option"
  ValidateHashes :: "Hash \<Rightarrow> bool"
  ValidateTransactionHashes :: "Hash \<Rightarrow> error option"
  RemoveChecksum :: "Hash \<Rightarrow> error + Hash"
  GetNewAddress :: "Trytes \<Rightarrow> GetNewAddressOptions \<Rightarrow> error + Hash list"
  GetBalances :: "Hash list \<Rightarrow> error + u64 list"
  WereAddressesSpentFrom :: "Hash list \<Rightarrow> error + bool list"
  GetTrytes :: "Hash \<Rightarrow> error + Trytes list"
  AsTransactionObject :: "Trytes \<Rightarrow> Hash \<Rightarrow> error + Transaction"
  ValidBundle :: "Transaction list \<Rightarrow> error option"
  getInputDefaultOptions :: "GetInputOptions \<Rightarrow> GetInputOptions"
  ToGetNewAddressOptions :: "GetInputOptions \<Rightarrow> GetNewAddressOptions"
  getPrepareTransfersDefaultOptions :: "PrepareTransfersOptions \<Rightarrow> PrepareTransfersOptions"
  MessageFragments :: "Trytes \<Rightarrow> Trytes list"
  Now :: u64
  FinalizeAndSign :: "Trytes \<Rightarrow> Transaction list \<Rightarrow> Input list \<Rightarrow> error + Trytes list"

subsection \<open>GetBundle and TraverseBundle\<close>

text \<open>
  Modelled from the spec: \<^verbatim>\<open>transaction.IsTailTransaction\<close> is not in the modelled files.
  The spec (section 4.5) has a valid tail as a transaction with \<open>currentIndex == 0\<close>.
\<close>

definition IsTailTransaction :: "Transaction \<Rightarrow> bool" where
  "IsTailTransaction tx \<longleftrightarrow> CurrentIndex tx = 0"

text \<open>
  The recursion of \<^verbatim>\<open>TraverseBundle\<close> has no bound, so the model is a partial function:
  \<open>None\<close> is a traversal that never returns. The last argument and the second component
  of the result are the log of the hashes handed to \<^verbatim>\<open>GetTrytes\<close> so far, in order.
\<close>

partial_function (option) TraverseBundle ::
  "API \<Rightarrow> Hash \<Rightarrow> Transaction list \<Rightarrow> Hash list \<Rightarrow> ((error + Transaction list) \<times> Hash list) option" where
  "TraverseBundle api trunkTxHash bndl fetched =
     (case ValidateTransactionHashes api trunkTxHash of
        Some err \<Rightarrow> Some (Inl err, fetched)
      | None \<Rightarrow>
          (case GetTrytes api trunkTxHash of
             Inl err \<Rightarrow> Some (Inl err, fetched @ [trunkTxHash])
           | Inr tailTrytes \<Rightarrow>
               (case tailTrytes of
                  [] \<Rightarrow> Some (Inl (Panic ''index out of range''), fetched @ [trunkTxHash])
                | trytes # _ \<Rightarrow>
                    (case AsTransactionObject api trytes trunkTxHash of
                       Inl err \<Rightarrow> Some (Inl err, fetched @ [trunkTxHash])
                     | Inr tx \<Rightarrow>
                         if length bndl = 0 \<and> \<not> IsTailTransaction tx
                         then Some (Inl ErrInvalidTailTransaction, fetched @ [trunkTxHash])
                         else if CurrentIndex tx = LastIndex tx
                         then Some (Inr (bndl @ [tx]), fetched @ [trunkTxHash])
                         else TraverseBundle api (TrunkTransaction tx) (bndl @ [tx])
                                (fetched @ [trunkTxHash])))))"

definition GetBundle :: "API \<Rightarrow> Hash \<Rightarrow> ((error + Transaction list) \<times> Hash list) option" where
  "GetBundle api tailTxHash =
     (case ValidateTransactionHashes api tailTxHash of
        Some err \<Rightarrow> Some (Inl err, [])
      | None \<Rightarrow>
          (case TraverseBundle api tailTxHash [] [] of
             None \<Rightarrow> None
           | Some (Inl err, fetched) \<Rightarrow> Some (Inl err, fetched)
           | Some (Inr bndl, fetched) \<Rightarrow>
               (case ValidBundle api bndl of
                  Some err \<Rightarrow> Some (Inl err, fetched)
                | None \<Rightarrow> Some (Inr bndl, fetched))))"

text \<open>
  In the words of the spec: the transaction a hash fetches, and the chain of transactions
  that starts at a hash, follows the trunk links and ends at the first transaction with
  \<open>currentIndex == lastIndex\<close>.
\<close>

definition fetchedTx :: "API \<Rightarrow> Hash \<Rightarrow> Transaction option" where
  "fetchedTx api h =
     (case ValidateTransactionHashes api h of
        Some err \<Rightarrow> None
      | None \<Rightarrow>
          (case GetTrytes api h of
             Inl err \<Rightarrow> None
           | Inr [] \<Rightarrow> None
           | Inr (trytes # _) \<Rightarrow>
               (case AsTransactionObject api trytes h of Inl err \<Rightarrow> None | Inr tx \<Rightarrow> Some tx)))"

fun trunkChain :: "API \<Rightarrow> Hash \<Rightarrow> Transaction list \<Rightarrow> bool" where
  "trunkChain api h [] = False"
| "trunkChain api h (tx # rest) =
     (fetchedTx api h = Some tx \<and>
      (if CurrentIndex tx = LastIndex tx then rest = []
       else trunkChain api (TrunkTransaction tx) rest))"

subsection \<open>GetInputs and GetInputObjects\<close>

text \<open>
  The loop of \<^verbatim>\<open>GetInputObjects\<close> from index \<open>i\<close> on, with the inputs and the total
  collected so far. \<^verbatim>\<open>balances[i]\<close> beyond the end of \<open>balances\<close> panics.
\<close>

fun inputObjectsFrom ::
  "nat \<Rightarrow> Hash list \<Rightarrow> u64 list \<Rightarrow> u64 \<Rightarrow> i64 \<Rightarrow> Input list \<Rightarrow> u64 \<Rightarrow> error + Inputs" where
  "inputObjectsFrom i [] balances start secLvl addrs totalBalance =
     Inr \<lparr>Inputs.Inputs = addrs, TotalBalance = totalBalance\<rparr>"
| "inputObjectsFrom i (address # addresses) balances start secLvl addrs totalBalance =
     (if length balances \<le> i then Inl (Panic ''index out of range'')
      else
        let value = balances ! i in
        if value \<le> 0 then inputObjectsFrom (Suc i) addresses balances start secLvl addrs totalBalance
        else inputObjectsFrom (Suc i) addresses balances start secLvl
               (addrs @ [\<lparr>Input.Address = address, Security = secLvl,
                           KeyIndex = start + of_nat i, Balance = value\<rparr>])
               (totalBalance + value))"

definition GetInputObjects :: "Hash list \<Rightarrow> u64 list \<Rightarrow> u64 \<Rightarrow> i64 \<Rightarrow> error + Inputs" where
  "GetInputObjects addresses balances start secLvl =
     inputObjectsFrom 0 addresses balances start secLvl [] 0"

text \<open>The threshold loop of \<^verbatim>\<open>GetInputs\<close> over the inputs not yet visited.\<close>

fun thresholdLoop :: "u64 \<Rightarrow> Input list \<Rightarrow> Inputs \<Rightarrow> Inputs" where
  "thresholdLoop threshold [] thresholdInputs = thresholdInputs"
| "thresholdLoop threshold (input # rest) thresholdInputs =
     (if threshold \<le> TotalBalance thresholdInputs then thresholdInputs
      else thresholdLoop threshold rest
             \<lparr>Inputs.Inputs = Inputs.Inputs thresholdInputs @ [input],
              TotalBalance = TotalBalance thresholdInputs + Balance input\<rparr>)"

definition GetInputs :: "API \<Rightarrow> Trytes \<Rightarrow> GetInputOptions \<Rightarrow> error + Inputs" where
  "GetInputs api seed options0 =
     (let options = getInputDefaultOptions api options0 in
      case ValidateGetInputs api seed options of
        Some err \<Rightarrow> Inl err
      | None \<Rightarrow>
          (let opts = ToGetNewAddressOptions api options in
           case GetNewAddress api seed opts of
             Inl err \<Rightarrow> Inl err
           | Inr addresses \<Rightarrow>
               (case GetBalances api addresses of
                  Inl err \<Rightarrow> Inl err
                | Inr balances \<Rightarrow>
                    (case GetInputObjects addresses balances (Index opts)
                            (GetNewAddressOptions.Security opts) of
                       Inl err \<Rightarrow> Inl err
                     | Inr inputs \<Rightarrow>
                         (case Threshold options of
                            None \<Rightarrow> Inr inputs
                          | Some threshold \<Rightarrow>
                              if TotalBalance inputs < threshold then Inl ErrInsufficientBalance
                              else Inr (thresholdLoop threshold (Inputs.Inputs inputs)
                                          \<lparr>Inputs.Inputs = [], TotalBalance = 0\<rparr>))))))"

text \<open>
  In the words of the spec: the inputs of all addresses with a positive balance, in
  allocation order, and the total of a list of inputs as \<^verbatim>\<open>uint64\<close> addition computes it.
\<close>

definition positiveInputs :: "Hash list \<Rightarrow> u64 list \<Rightarrow> u64 \<Rightarrow> i64 \<Rightarrow> Input list" where
  "positiveInputs addresses balances start secLvl =
     map (\<lambda>(i, address). \<lparr>Input.Address = address, Security = secLvl,
                             KeyIndex = start + of_nat i, Balance = balances ! i\<rparr>)
       (filter (\<lambda>(i, address). 0 < balances ! i) (enumerate 0 addresses))"

definition balanceSum :: "Input list \<Rightarrow> u64" where
  "balanceSum inputs = sum_list (map Balance inputs)"

subsection \<open>PrepareTransfers\<close>

text \<open>
  Modelled from the spec: \<^verbatim>\<open>bundle.TransfersToBundleEntries\<close> is not in the modelled
  files. The spec (section 4.4, step 3) has one output entry per transfer, with the
  transfer's value, spanning as many transactions as the message has fragments (at least
  one). Its error result is that of stripping the checksum of the transfer's address, as
  steps 5 and 7 do for the inputs and the remainder address.
\<close>

fun TransfersToBundleEntries :: "API \<Rightarrow> u64 \<Rightarrow> Transfer list \<Rightarrow> error + BundleEntry list" where
  "TransfersToBundleEntries api timestamp [] = Inr []"
| "TransfersToBundleEntries api timestamp (transfer # transfers) =
     (case RemoveChecksum api (Transfer.Address transfer) of
        Inl err \<Rightarrow> Inl err
      | Inr addr \<Rightarrow>
          (case TransfersToBundleEntries api timestamp transfers of
             Inl err \<Rightarrow> Inl err
           | Inr entries \<Rightarrow>
               (let frags = MessageFragments api (Message transfer) in
                Inr (\<lparr>BundleEntry.Address = addr,
                      Value = Transfer.Value transfer,
                      Length = (if length frags = 0 then 1 else of_nat (length frags)),
                      Timestamp = timestamp,
                      Tag = Transfer.Tag transfer,
                      SignatureMessageFragments = frags\<rparr> # entries))))"

text \<open>
  Modelled from the spec: \<^verbatim>\<open>bundle.AddEntry\<close> is not in the modelled files. The spec
  (section 4.4, steps 3, 5, 7 and 10; section 3) has an entry append its transactions to
  the bundle: \<open>Length\<close> of them (one when \<open>Length\<close> is unset), all at the entry's address,
  the first carrying the entry's value and the others none, indexed consecutively, with
  \<open>lastIndex\<close> of every transaction the last position of the grown bundle.
\<close>

definition AddEntry :: "Transaction list \<Rightarrow> BundleEntry \<Rightarrow> Transaction list" where
  "AddEntry txs bndlEntry =
     (let n = (if Length bndlEntry = 0 then 1 else unat (Length bndlEntry));
          prevLength = length txs;
          lastIndex = of_nat (prevLength + n - 1);
          frags = SignatureMessageFragments bndlEntry
      in map (\<lambda>tx. tx\<lparr>Transaction.LastIndex := lastIndex\<rparr>) txs @
         map (\<lambda>i. \<lparr>Transaction.Address = BundleEntry.Address bndlEntry,
                    Value = (if i = 0 then BundleEntry.Value bndlEntry else 0),
                    Tag = BundleEntry.Tag bndlEntry,
                    Timestamp = BundleEntry.Timestamp bndlEntry,
                    CurrentIndex = of_nat (prevLength + i),
                    LastIndex = lastIndex,
                    TrunkTransaction = [],
                    SignatureMessageFragment = (if i < length frags then frags ! i else [])\<rparr>)
           [0..<n])"

text \<open>
  Lines 526-530: for every state that is set, the element at the state's position is cut
  out of the inputs collected so far; \<^verbatim>\<open>inputs.Inputs[i+1:]\<close> beyond the end panics.
\<close>

fun removeSpent :: "nat \<Rightarrow> bool list \<Rightarrow> Input list \<Rightarrow> error + Input list" where
  "removeSpent i [] inputs = Inr inputs"
| "removeSpent i (state # states) inputs =
     (if state
      then (if length inputs < i + 1 then Inl (Panic ''slice bounds out of range'')
            else removeSpent (i + 1) states (take i inputs @ drop (i + 1) inputs))
      else removeSpent (i + 1) states inputs)"

text \<open>
  Lines 510-533. \<open>propsInputs\<close> is \<^verbatim>\<open>props.Inputs\<close>: the addresses asked about are
  \<^verbatim>\<open>inputs.Inputs[i].Address\<close> for \<open>i\<close> in \<^verbatim>\<open>range props.Inputs\<close>.
\<close>

definition gatherInputs :: "API \<Rightarrow> Trytes \<Rightarrow> i64 \<Rightarrow> u64 \<Rightarrow> Input list \<Rightarrow> error + Input list" where
  "gatherInputs api seed security totalTransferValue propsInputs =
     (if totalTransferValue \<noteq> 0 \<and> length propsInputs = 0
      then
        (case GetInputs api seed
                \<lparr>Start = 0, End = None, Threshold = Some totalTransferValue,
                 Security = security\<rparr> of
           Inl err \<Rightarrow> Inl err
         | Inr inputs \<Rightarrow>
             if length (Inputs.Inputs inputs) < length propsInputs
             then Inl (Panic ''index out of range'')
             else
               (let inputAddresses =
                      map Input.Address (take (length propsInputs) (Inputs.Inputs inputs)) in
                case WereAddressesSpentFrom api inputAddresses of
                  Inl err \<Rightarrow> Inl err
                | Inr states \<Rightarrow> removeSpent 0 states (Inputs.Inputs inputs)))
      else Inr propsInputs)"

text \<open>Lines 544-549: the bundle entry of an input whose address, checksum removed, is \<open>addr\<close>.\<close>

definition inputEntry :: "u64 \<Rightarrow> Input \<Rightarrow> Hash \<Rightarrow> BundleEntry" where
  "inputEntry timestamp input addr =
     \<lparr>BundleEntry.Address = addr,
      Value = - Balance input,
      Length = Input.Security input,
      Timestamp = timestamp,
      Tag = [],
      SignatureMessageFragments = []\<rparr>"

text \<open>Lines 535-551: the input transactions, and \<^verbatim>\<open>inputsTotal\<close>.\<close>

fun addInputTransactions ::
  "API \<Rightarrow> u64 \<Rightarrow> Input list \<Rightarrow> u64 \<Rightarrow> Transaction list \<Rightarrow> error + (u64 \<times> Transaction list)" where
  "addInputTransactions api timestamp [] inputsTotal txs = Inr (inputsTotal, txs)"
| "addInputTransactions api timestamp (input # inputs) inputsTotal txs =
     (case RemoveChecksum api (Input.Address input) of
        Inl err \<Rightarrow> Inl err
      | Inr addr \<Rightarrow>
          addInputTransactions api timestamp inputs (inputsTotal + Balance input)
            (AddEntry txs (inputEntry timestamp input addr)))"

text \<open>
  Lines 558-602. A nil \<^verbatim>\<open>props.RemainderAddress\<close> is \<open>None\<close>; dereferencing it panics.
  \<^verbatim>\<open>int64(math.Abs(float64(remainder)))\<close> has the bits of \<open>absU64 remainder\<close> (for the one
  rounded value \<open>2 ^ 63\<close> outside \<^verbatim>\<open>int64\<close>, as the amd64 conversion gives them).
\<close>

definition addRemainder ::
  "API \<Rightarrow> Trytes \<Rightarrow> i64 \<Rightarrow> u64 \<Rightarrow> u64 \<Rightarrow> Input list \<Rightarrow> Hash option \<Rightarrow> Transaction list
     \<Rightarrow> error + Transaction list" where
  "addRemainder api seed security timestamp totalTransferValue inputs remainderAddress txs =
     (let remainder = sum_list (map Transaction.Value txs) in
      if 0 <s remainder then Inl ErrInsufficientBalance
      else if remainder \<noteq> 0 then
        (case
           (if 0 < totalTransferValue \<and> remainderAddress = None
            then
              (case inputs of
                 [] \<Rightarrow> Inl (Panic ''index out of range'')
               | input0 # _ \<Rightarrow>
                   (let remainderAddressKeyIndex =
                          foldl (\<lambda>r input. if r < KeyIndex input then KeyIndex input else r)
                            (KeyIndex input0) inputs + 1
                    in case GetNewAddress api seed
                              \<lparr>Index = remainderAddressKeyIndex, Security = security,
                               Total = None, ReturnAll = False\<rparr> of
                         Inl err \<Rightarrow> Inl err
                       | Inr [] \<Rightarrow> Inl (Panic ''index out of range'')
                       | Inr (addr # _) \<Rightarrow> Inr addr))
            else
              (case remainderAddress of
                 None \<Rightarrow> Inl (Panic ''nil pointer dereference'')
               | Some addr \<Rightarrow> RemoveChecksum api addr)) of
           Inl err \<Rightarrow> Inl err
         | Inr remainderAddr \<Rightarrow>
             if 0 < totalTransferValue
             then Inr (AddEntry txs
                         \<lparr>BundleEntry.Address = remainderAddr,
                          Value = absU64 remainder,
                          Length = 1,
                          Timestamp = timestamp,
                          Tag = [],
                          SignatureMessageFragments = []\<rparr>)
             else Inr txs)
      else Inr txs)"

text \<open>Lines 604-617: some transaction with a positive value is at the address of an input.\<close>

definition sendsBackToInputs :: "Transaction list \<Rightarrow> Input list \<Rightarrow> bool" where
  "sendsBackToInputs txs inputs =
     list_ex (\<lambda>tx. \<not> Transaction.Value tx \<le>s 0 \<and>
                   list_ex (\<lambda>input. Input.Address input = Transaction.Address tx) inputs) txs"

text \<open>Lines 476-480, 488-492 and 494-497.\<close>

definition validRemainderAddress :: "API \<Rightarrow> PrepareTransfersOptions \<Rightarrow> bool" where
  "validRemainderAddress api options =
     (case RemainderAddress options of None \<Rightarrow> True | Some addr \<Rightarrow> ValidateHashes api addr)"

definition propsTimestamp :: "API \<Rightarrow> PrepareTransfersOptions \<Rightarrow> u64" where
  "propsTimestamp api options =
     (case PrepareTransfersOptions.Timestamp options of Some t \<Rightarrow> t | None \<Rightarrow> Now api)"

definition totalTransferValue :: "Transfer list \<Rightarrow> u64" where
  "totalTransferValue transfers = sum_list (map Transfer.Value transfers)"

definition PrepareTransfers ::
  "API \<Rightarrow> Trytes \<Rightarrow> Transfer list \<Rightarrow> PrepareTransfersOptions \<Rightarrow> error + Trytes list" where
  "PrepareTransfers api seed transfers options0 =
     (let options = getPrepareTransfersDefaultOptions api options0 in
      case ValidateSeedSecurity api seed (PrepareTransfersOptions.Security options) of
        Some err \<Rightarrow> Inl err
      | None \<Rightarrow>
          if \<not> validRemainderAddress api options then Inl ErrInvalidRemainderAddress
          else
            (let timestamp = propsTimestamp api options;
                 totalValue = totalTransferValue transfers
             in case TransfersToBundleEntries api timestamp transfers of
                  Inl err \<Rightarrow> Inl err
                | Inr outEntries \<Rightarrow>
                    (case gatherInputs api seed (PrepareTransfersOptions.Security options)
                            totalValue (PrepareTransfersOptions.Inputs options) of
                       Inl err \<Rightarrow> Inl err
                     | Inr inputs \<Rightarrow>
                         (case addInputTransactions api timestamp inputs 0
                                 (foldl AddEntry [] outEntries) of
                            Inl err \<Rightarrow> Inl err
                          | Inr (inputsTotal, txs) \<Rightarrow>
                              if inputsTotal < totalValue then Inl ErrInsufficientBalance
                              else
                                (case addRemainder api seed
                                        (PrepareTransfersOptions.Security options) timestamp
                                        totalValue inputs (RemainderAddress options) txs of
                                   Inl err \<Rightarrow> Inl err
                                 | Inr txs' \<Rightarrow>
                                     if sendsBackToInputs txs' inputs
                                     then Inl ErrSendingBackToInputs
                                     else FinalizeAndSign api seed txs' inputs)))))"

section \<open>Concrete runs\<close>

text \<open>An account whose key index 5 is reserved and whose key index 3 is spent.\<close>

definition state0 :: "unit AccountState" where
  "state0 = \<lparr>UsedAddresses = [- 5, 3], PendingTransfers = Map.empty, lastKeyIndex = 0\<rparr>"

text \<open>
  An account whose one entry, \<open>- (2 ^ 53 + 1)\<close>, is past the integers that \<^verbatim>\<open>float64\<close>
  holds exactly; and a derivation of the essence that keeps nothing.
\<close>

definition state53 :: "unit AccountState" where
  "state53 = \<lparr>UsedAddresses = [- 9007199254740993], PendingTransfers = Map.empty,
              lastKeyIndex = 0\<rparr>"

definition noEssence :: "Trytes list \<Rightarrow> unit" where
  "noEssence bundleTrytes = ()"

text \<open>
  A node with four addresses \<open>A\<close>, \<open>B\<close>, \<open>C\<close>, \<open>D\<close> holding 0, 3, 4 and 5, of which
  \<open>B\<close> has been spent from, and with a two-transaction bundle whose tail is \<open>T0\<close>.
  Validators accept, addresses carry no checksum, and the last stage returns the addresses
  of the transactions with a negative value: the addresses the bundle spends from.
\<close>

definition balance0 :: "Hash \<Rightarrow> u64" where
  "balance0 a = (if a = ''B'' then 3 else if a = ''C'' then 4 else if a = ''D'' then 5 else 0)"

definition tx0 :: "Hash \<Rightarrow> error + Transaction" where
  "tx0 h =
     (if h = ''T0'' then
        Inr \<lparr>Transaction.Address = ''A'', Value = 0, Tag = [], Timestamp = 0, CurrentIndex = 0,
             LastIndex = 1, TrunkTransaction = ''T1'', SignatureMessageFragment = []\<rparr>
      else if h = ''T1'' then
        Inr \<lparr>Transaction.Address = ''A'', Value = 0, Tag = [], Timestamp = 0, CurrentIndex = 1,
             LastIndex = 1, TrunkTransaction = ''T2'', SignatureMessageFragment = []\<rparr>
      else Inl (ErrExternal ''unknown transaction''))"

definition node0 :: API where
  "node0 =
     \<lparr>ValidateSeedSecurity = (\<lambda>seed security. None),
      ValidateGetInputs = (\<lambda>seed options. None),
      ValidateHashes = (\<lambda>h. True),
      ValidateTransactionHashes = (\<lambda>h. None),
      RemoveChecksum = Inr,
      GetNewAddress = (\<lambda>seed opts. Inr [''A'', ''B'', ''C'', ''D'']),
      GetBalances = (\<lambda>addresses. Inr (map balance0 addresses)),
      WereAddressesSpentFrom = (\<lambda>addresses. Inr (map (\<lambda>a. a = ''B'') addresses)),
      GetTrytes = (\<lambda>h. Inr [h]),
      AsTransactionObject = (\<lambda>trytes h. tx0 trytes),
      ValidBundle = (\<lambda>bndl. None),
      getInputDefaultOptions = (\<lambda>options. options),
      ToGetNewAddressOptions =
        (\<lambda>options. \<lparr>Index = Start options, Security = GetInputOptions.Security options,
                      Total = None, ReturnAll = True\<rparr>),
      getPrepareTransfersDefaultOptions = (\<lambda>options. options),
      MessageFragments = (\<lambda>message. []),
      Now = 0,
      FinalizeAndSign =
        (\<lambda>seed txs inputs.
           Inr (map Transaction.Address (filter (\<lambda>tx. Transaction.Value tx <s 0) txs)))\<rparr>"

text \<open>A caller-supplied input at \<open>B\<close>, a transfer to \<open>D\<close>, and options with no remainder address.\<close>

definition inputB :: Input where
  "inputB = \<lparr>Input.Address = ''B'', Security = 1, KeyIndex = 1, Balance = 3\<rparr>"

definition transferTo :: "Hash \<Rightarrow> u64 \<Rightarrow> Transfer" where
  "transferTo addr v = \<lparr>Transfer.Address = addr, Value = v, Tag = [], Message = []\<rparr>"

definition optionsWith :: "Input list \<Rightarrow> PrepareTransfersOptions" where
  "optionsWith inputs =
     \<lparr>PrepareTransfersOptions.Inputs = inputs, RemainderAddress = None, Security = 2,
      Timestamp = None\<rparr>"

text \<open>
  The same node when \<open>BCHECKSUM\<close> is the address \<open>B\<close> with its checksum appended, and the
  input at \<open>B\<close> supplied in that form.
\<close>

definition node1 :: API where
  "node1 = node0\<lparr>RemoveChecksum := (\<lambda>a. if a = ''BCHECKSUM'' then Inr ''B'' else Inr a)\<rparr>"

definition inputBChecksum :: Input where
  "inputBChecksum = inputB\<lparr>Input.Address := ''BCHECKSUM''\<rparr>"

text \<open>The bundle entry of a transfer without a message, at timestamp 0.\<close>

definition entryTo :: "Hash \<Rightarrow> i64 \<Rightarrow> BundleEntry" where
  "entryTo addr v =
     \<lparr>BundleEntry.Address = addr, Value = v, Length = 1, Timestamp = 0, Tag = [],
      SignatureMessageFragments = []\<rparr>"

section \<open>Account state store: theorems\<close>

lemma bitlen_2_53: "bitlen 9007199254740992 = 54"
  by simp

lemma float64_exact: "\<bar>x\<bar> \<le> 2 ^ 53 \<Longrightarrow> float64 x = x"
proof -
  assume "\<bar>x\<bar> \<le> 2 ^ 53"
  then consider "\<bar>x\<bar> < 2 ^ 53" | "x = 9007199254740992" | "x = - 9007199254740992"
    by fastforce
  then show ?thesis
  proof cases
    case 1
    then show ?thesis by (simp add: float64_def Let_def nat_less_iff)
  next
    case 2
    then show ?thesis by (simp add: float64_def Let_def bitlen_2_53 del: bitlen.simps)
  next
    case 3
    then show ?thesis by (simp add: float64_def Let_def bitlen_2_53 del: bitlen.simps)
  qed
qed

lemma absU64_exact: "\<bar>sint x\<bar> \<le> 2 ^ 53 \<Longrightarrow> absU64 x = word_of_int \<bar>sint x\<bar>"
  by (simp add: absU64_def float64_exact)

lemma sint_absU64:
  assumes "\<bar>sint x\<bar> \<le> 2 ^ 53"
  shows "sint (absU64 x) = \<bar>sint x\<bar>"
proof -
  have "\<bar>sint x\<bar> < 2 ^ 63" using assms by simp
  then have "signed_take_bit 63 \<bar>sint x\<bar> = \<bar>sint x\<bar>"
    by (intro signed_take_bit_int_eq_self) simp_all
  then show ?thesis
    using assms by (simp add: absU64_exact sint_sbintrunc')
qed

lemma uint_absU64:
  assumes "\<bar>sint x\<bar> \<le> 2 ^ 53"
  shows "uint (absU64 x) = \<bar>sint x\<bar>"
proof -
  have "\<bar>sint x\<bar> < 2 ^ 64" using assms by simp
  then have "take_bit 64 \<bar>sint x\<bar> = \<bar>sint x\<bar>"
    by (intro take_bit_int_eq_self) simp_all
  then show ?thesis
    using assms by (simp add: absU64_exact uint_word_of_int_eq)
qed

lemma absU64_eq_iff:
  assumes "\<bar>sint x\<bar> \<le> 2 ^ 53"
  shows "absU64 x = index \<longleftrightarrow> \<bar>sint x\<bar> = uint index"
  using uint_absU64 [OF assms] by (metis word_uint_eq_iff)

lemma markSpent_None_iff:
  "\<forall>u\<in>set used. \<bar>sint u\<bar> \<le> 2 ^ 53 \<Longrightarrow>
   markSpent index used = None \<longleftrightarrow> (\<forall>u\<in>set used. \<bar>sint u\<bar> \<noteq> uint index)"
  by (induction used) (auto simp: absU64_eq_iff)

lemma markSpent_Some:
  "\<forall>u\<in>set used. \<bar>sint u\<bar> \<le> 2 ^ 53 \<Longrightarrow> markSpent index used = Some used' \<Longrightarrow>
   \<exists>p<length used. used' = used[p := absU64 (used ! p)] \<and> \<bar>sint (used ! p)\<bar> = uint index \<and>
     (\<forall>j<p. \<bar>sint (used ! j)\<bar> \<noteq> uint index)"
proof (induction used arbitrary: used')
  case Nil
  then show ?case by simp
next
  case (Cons u us)
  show ?case
  proof (cases "absU64 u = index")
    case True
    with Cons.prems have "used' = (u # us)[0 := absU64 ((u # us) ! 0)]"
      by auto
    moreover from True Cons.prems have "\<bar>sint u\<bar> = uint index"
      by (simp add: absU64_eq_iff)
    ultimately show ?thesis by (intro exI [of _ 0]) simp
  next
    case False
    with Cons.prems obtain r where r: "markSpent index us = Some r" and u': "used' = u # r"
      by auto
    from Cons.prems have "\<forall>u\<in>set us. \<bar>sint u\<bar> \<le> 2 ^ 53" by simp
    from Cons.IH [OF this r] obtain p where p: "p < length us" "r = us[p := absU64 (us ! p)]"
      "\<bar>sint (us ! p)\<bar> = uint index" "\<forall>j<p. \<bar>sint (us ! j)\<bar> \<noteq> uint index"
      by blast
    from False Cons.prems have nu: "\<bar>sint u\<bar> \<noteq> uint index" by (simp add: absU64_eq_iff)
    have "\<forall>j<Suc p. \<bar>sint ((u # us) ! j)\<bar> \<noteq> uint index"
      using p(4) nu by (auto simp: less_Suc_eq_0_disj)
    with p u' show ?thesis by (intro exI [of _ "Suc p"]) simp
  qed
qed

lemma markAllSpent_char:
  assumes "\<forall>u\<in>set used. \<bar>sint u\<bar> \<le> 2 ^ 53"
  shows "if (\<forall>index\<in>set indices. \<exists>u\<in>set used. \<bar>sint u\<bar> = uint index)
         then \<exists>used'. markAllSpent indices used = Inr used' \<and> length used' = length used \<and>
                (\<forall>i<length used. sint (used' ! i) =
                   (if (\<exists>index\<in>set indices. \<bar>sint (used ! i)\<bar> = uint index) \<and>
                       (\<forall>j<i. \<bar>sint (used ! j)\<bar> \<noteq> \<bar>sint (used ! i)\<bar>)
                    then \<bar>sint (used ! i)\<bar> else sint (used ! i)))
         else markAllSpent indices used = Inl ErrAddrIndexNotFound"
  using assms
proof (induction indices arbitrary: used)
  case Nil
  then show ?case by simp
next
  case (Cons index indices)
  show ?case
  proof (cases "markSpent index used")
    case None
    with Cons.prems have "\<forall>u\<in>set used. \<bar>sint u\<bar> \<noteq> uint index"
      by (simp add: markSpent_None_iff)
    with None show ?thesis by auto
  next
    case (Some u1)
    from markSpent_Some [OF Cons.prems Some] obtain p where p: "p < length used"
      "u1 = used[p := absU64 (used ! p)]" "\<bar>sint (used ! p)\<bar> = uint index"
      "\<forall>j<p. \<bar>sint (used ! j)\<bar> \<noteq> uint index"
      by blast
    have rp: "\<bar>sint (used ! p)\<bar> \<le> 2 ^ 53" using Cons.prems p(1) by simp
    have len: "length u1 = length used" using p by simp
    have abs1: "\<bar>sint (u1 ! i)\<bar> = \<bar>sint (used ! i)\<bar>" if "i < length used" for i
      using that p rp by (cases "i = p") (simp_all add: sint_absU64)
    have range1: "\<forall>u\<in>set u1. \<bar>sint u\<bar> \<le> 2 ^ 53"
    proof
      fix u assume "u \<in> set u1"
      then obtain i where "i < length u1" "u = u1 ! i" by (auto simp: in_set_conv_nth)
      then show "\<bar>sint u\<bar> \<le> 2 ^ 53" using abs1 [of i] len Cons.prems by simp
    qed
    have sets: "(\<exists>u\<in>set u1. \<bar>sint u\<bar> = k) \<longleftrightarrow> (\<exists>u\<in>set used. \<bar>sint u\<bar> = k)" for k
      using abs1 len by (metis in_set_conv_nth)
    have here: "\<exists>u\<in>set used. \<bar>sint u\<bar> = uint index"
      using p by (metis nth_mem)
    note IH = Cons.IH [OF range1]
    show ?thesis
    proof (cases "\<forall>index\<in>set indices. \<exists>u\<in>set used. \<bar>sint u\<bar> = uint index")
      case False
      then have "\<not> (\<forall>index\<in>set indices. \<exists>u\<in>set u1. \<bar>sint u\<bar> = uint index)"
        using sets by simp
      with IH have "markAllSpent indices u1 = Inl ErrAddrIndexNotFound" by (simp split: if_splits)
      with Some False show ?thesis by simp
    next
      case True
      then have "\<forall>index\<in>set indices. \<exists>u\<in>set u1. \<bar>sint u\<bar> = uint index"
        using sets by simp
      with IH have "\<exists>used'. markAllSpent indices u1 = Inr used' \<and> length used' = length u1 \<and>
                (\<forall>i<length u1. sint (used' ! i) =
                   (if (\<exists>index\<in>set indices. \<bar>sint (u1 ! i)\<bar> = uint index) \<and>
                       (\<forall>j<i. \<bar>sint (u1 ! j)\<bar> \<noteq> \<bar>sint (u1 ! i)\<bar>)
                    then \<bar>sint (u1 ! i)\<bar> else sint (u1 ! i)))"
        by (simp split: if_splits)
      then obtain used' where u': "markAllSpent indices u1 = Inr used'" "length used' = length u1"
        and nth: "\<forall>i<length u1. sint (used' ! i) =
                   (if (\<exists>index\<in>set indices. \<bar>sint (u1 ! i)\<bar> = uint index) \<and>
                       (\<forall>j<i. \<bar>sint (u1 ! j)\<bar> \<noteq> \<bar>sint (u1 ! i)\<bar>)
                    then \<bar>sint (u1 ! i)\<bar> else sint (u1 ! i))"
        by blast
      have "sint (used' ! i) =
              (if (\<exists>ix\<in>set (index # indices). \<bar>sint (used ! i)\<bar> = uint ix) \<and>
                  (\<forall>j<i. \<bar>sint (used ! j)\<bar> \<noteq> \<bar>sint (used ! i)\<bar>)
               then \<bar>sint (used ! i)\<bar> else sint (used ! i))" if i: "i < length used" for i
      proof -
        define A where "A \<longleftrightarrow> (\<exists>index\<in>set indices. \<bar>sint (u1 ! i)\<bar> = uint index) \<and>
                       (\<forall>j<i. \<bar>sint (u1 ! j)\<bar> \<noteq> \<bar>sint (u1 ! i)\<bar>)"
        define B where "B \<longleftrightarrow> (\<exists>index\<in>set indices. \<bar>sint (used ! i)\<bar> = uint index) \<and>
                       (\<forall>j<i. \<bar>sint (used ! j)\<bar> \<noteq> \<bar>sint (used ! i)\<bar>)"
        have AB: "A = B"
          unfolding A_def B_def using abs1 i by auto
        have "sint (used' ! i) = (if A then \<bar>sint (u1 ! i)\<bar> else sint (u1 ! i))"
          unfolding A_def using nth i len by simp
        then have eq: "sint (used' ! i) = (if B then \<bar>sint (used ! i)\<bar> else sint (u1 ! i))"
          using AB abs1 [OF i] by simp
        show ?thesis
        proof (cases "i = p")
          case True
          have "sint (u1 ! p) = \<bar>sint (used ! p)\<bar>"
            using p rp by (simp add: sint_absU64)
          moreover have "\<forall>j<p. \<bar>sint (used ! j)\<bar> \<noteq> \<bar>sint (used ! p)\<bar>"
            using p by simp
          ultimately show ?thesis using eq True p(3) unfolding B_def by simp
        next
          case False
          then have same: "u1 ! i = used ! i" using p by simp
          have "\<not> (\<bar>sint (used ! i)\<bar> = uint index \<and> (\<forall>j<i. \<bar>sint (used ! j)\<bar> \<noteq> \<bar>sint (used ! i)\<bar>))"
          proof
            assume a: "\<bar>sint (used ! i)\<bar> = uint index \<and> (\<forall>j<i. \<bar>sint (used ! j)\<bar> \<noteq> \<bar>sint (used ! i)\<bar>)"
            then have "\<not> i < p" using p(4) by auto
            then have "p < i" using False by simp
            then show False using a p(3) by auto
          qed
          then show ?thesis using eq same unfolding B_def by auto
        qed
      qed
      with u' len Some True here show ?thesis by simp
    qed
  qed
qed

text \<open>
  Claim C5, for entries within the range of exact \<^verbatim>\<open>float64\<close> integers. Let the account be
  stored and its state decode, with every \<open>usedAddresses\<close> entry at most \<open>2 ^ 53\<close> in
  magnitude. If every supplied index is the absolute value of some entry,
  \<^verbatim>\<open>AddPendingTransfer\<close> persists the state in which, for every supplied index, the first
  entry with that absolute value is non-negative, all other entries are as before, and
  \<open>tailTx\<close> maps to the pending transfer of the bundle with \<open>tails = [tailTx]\<close> (or it
  reports the encoder's error and leaves the store alone). If some supplied index is the
  absolute value of no entry, the call fails with \<open>ErrAddrIndexNotFound\<close> and the store is
  unchanged.
\<close>

theorem AddPendingTransfer_marks_spent_or_fails:
  assumes "db accId = Some accountBytes" and "Unmarshal c accountBytes = Some state"
    and "\<forall>u\<in>set (UsedAddresses state). \<bar>sint u\<bar> \<le> 2 ^ 53"
  shows "if (\<forall>index\<in>set indices. \<exists>u\<in>set (UsedAddresses state). \<bar>sint u\<bar> = uint index)
         then \<exists>used'. length used' = length (UsedAddresses state) \<and>
                (\<forall>i<length used'. sint (used' ! i) =
                   (if (\<exists>index\<in>set indices. \<bar>sint (UsedAddresses state ! i)\<bar> = uint index) \<and>
                       (\<forall>j<i. \<bar>sint (UsedAddresses state ! j)\<bar> \<noteq> \<bar>sint (UsedAddresses state ! i)\<bar>)
                    then \<bar>sint (UsedAddresses state ! i)\<bar> else sint (UsedAddresses state ! i))) \<and>
                AddPendingTransfer c ess db accId tailTx bundleTrytes indices =
                  (case Marshal c (state\<lparr>UsedAddresses := used',
                          PendingTransfers := (PendingTransfers state)
                            (tailTx \<mapsto> \<lparr>Essence = ess bundleTrytes, Tails = [tailTx]\<rparr>)\<rparr>) of
                     None \<Rightarrow> (Some ErrJSON, db)
                   | Some newStateBytes \<Rightarrow> (None, db(accId \<mapsto> newStateBytes)))
         else AddPendingTransfer c ess db accId tailTx bundleTrytes indices = (Some ErrAddrIndexNotFound, db)"
proof (cases "\<forall>index\<in>set indices. \<exists>u\<in>set (UsedAddresses state). \<bar>sint u\<bar> = uint index")
  case False
  from markAllSpent_char [OF assms(3), of indices]
  have "markAllSpent indices (UsedAddresses state) = Inl ErrAddrIndexNotFound"
    by (subst (asm) if_not_P [OF False])
  with assms(1,2)
  have "AddPendingTransfer c ess db accId tailTx bundleTrytes indices = (Some ErrAddrIndexNotFound, db)"
    by (simp add: AddPendingTransfer_def mutate_def addPendingTransferMut_def)
  then show ?thesis by (subst if_not_P [OF False])
next
  case True
  from markAllSpent_char [OF assms(3), of indices]
  have "\<exists>used'. markAllSpent indices (UsedAddresses state) = Inr used' \<and>
    length used' = length (UsedAddresses state) \<and>
    (\<forall>i<length (UsedAddresses state). sint (used' ! i) =
                   (if (\<exists>index\<in>set indices. \<bar>sint (UsedAddresses state ! i)\<bar> = uint index) \<and>
                       (\<forall>j<i. \<bar>sint (UsedAddresses state ! j)\<bar> \<noteq> \<bar>sint (UsedAddresses state ! i)\<bar>)
                    then \<bar>sint (UsedAddresses state ! i)\<bar> else sint (UsedAddresses state ! i)))"
    by (subst (asm) if_P [OF True])
  then obtain used' where u: "markAllSpent indices (UsedAddresses state) = Inr used'"
    "length used' = length (UsedAddresses state)"
    "\<forall>i<length (UsedAddresses state). sint (used' ! i) =
                   (if (\<exists>index\<in>set indices. \<bar>sint (UsedAddresses state ! i)\<bar> = uint index) \<and>
                       (\<forall>j<i. \<bar>sint (UsedAddresses state ! j)\<bar> \<noteq> \<bar>sint (UsedAddresses state ! i)\<bar>)
                    then \<bar>sint (UsedAddresses state ! i)\<bar> else sint (UsedAddresses state ! i))"
    by blast
  have u3: "\<forall>i<length used'. sint (used' ! i) =
                   (if (\<exists>index\<in>set indices. \<bar>sint (UsedAddresses state ! i)\<bar> = uint index) \<and>
                       (\<forall>j<i. \<bar>sint (UsedAddresses state ! j)\<bar> \<noteq> \<bar>sint (UsedAddresses state ! i)\<bar>)
                    then \<bar>sint (UsedAddresses state ! i)\<bar> else sint (UsedAddresses state ! i))"
    unfolding u(2) by (rule u(3))
  have "AddPendingTransfer c ess db accId tailTx bundleTrytes indices =
                  (case Marshal c (state\<lparr>UsedAddresses := used',
                          PendingTransfers := (PendingTransfers state)
                            (tailTx \<mapsto> \<lparr>Essence = ess bundleTrytes, Tails = [tailTx]\<rparr>)\<rparr>) of
                     None \<Rightarrow> (Some ErrJSON, db)
                   | Some newStateBytes \<Rightarrow> (None, db(accId \<mapsto> newStateBytes)))"
    using assms(1,2) u(1)
    by (simp add: AddPendingTransfer_def mutate_def addPendingTransferMut_def
        trytesToPendingTransfer_def)
  with u(2) u3 show ?thesis by (subst if_P [OF True]) blast
qed

theorem AddPendingTransfer_marks_spent_or_fails_witness:
  "AddPendingTransfer idCodec noEssence [''acc'' \<mapsto> state0] ''acc'' ''TAIL'' [] [7]
     = (Some ErrAddrIndexNotFound, [''acc'' \<mapsto> state0]) \<and>
   AddPendingTransfer idCodec noEssence [''acc'' \<mapsto> state0] ''acc'' ''TAIL'' [] [5]
     = (None, [''acc'' \<mapsto> \<lparr>UsedAddresses = [5, 3],
                  PendingTransfers = [''TAIL'' \<mapsto> \<lparr>Essence = (), Tails = [''TAIL'']\<rparr>],
                  lastKeyIndex = 0\<rparr>])"
proof -
  have h1: "[''acc'' \<mapsto> state0] ''acc'' = Some state0" by simp
  have h2: "Unmarshal idCodec state0 = Some state0" by (simp add: idCodec_def)
  have h3: "\<forall>u\<in>set (UsedAddresses state0). \<bar>sint u\<bar> \<le> 2 ^ 53" by (simp add: state0_def)
  have "AddPendingTransfer idCodec noEssence [''acc'' \<mapsto> state0] ''acc'' ''TAIL'' [] [7]
     = (Some ErrAddrIndexNotFound, [''acc'' \<mapsto> state0])"
    using AddPendingTransfer_marks_spent_or_fails [of "[''acc'' \<mapsto> state0]" "''acc''" state0
        idCodec state0 "[7]" noEssence "''TAIL''" "[]", OF h1 h2 h3]
    by (simp add: state0_def)
  moreover have "AddPendingTransfer idCodec noEssence [''acc'' \<mapsto> state0] ''acc'' ''TAIL'' [] [5]
     = (None, [''acc'' \<mapsto> \<lparr>UsedAddresses = [5, 3],
                  PendingTransfers = [''TAIL'' \<mapsto> \<lparr>Essence = (), Tails = [''TAIL'']\<rparr>],
                  lastKeyIndex = 0\<rparr>])"
    by (simp add: AddPendingTransfer_def mutate_def addPendingTransferMut_def idCodec_def
        trytesToPendingTransfer_def state0_def absU64_def float64_def)
  ultimately show ?thesis by simp
qed

lemma bitlen_numeral: "bitlen 9007199254740993 = 54"
  by simp

lemma float64_rounds: "float64 (- 9007199254740993) = - 9007199254740992"
  by (simp add: float64_def Let_def bitlen_numeral del: bitlen.simps)

text \<open>
  Claim C5 without the bound fails. Past \<open>2 ^ 53\<close> the conversion through \<^verbatim>\<open>float64\<close>
  rounds: the entry \<open>- (2 ^ 53 + 1)\<close> is read as \<open>2 ^ 53\<close>, so the index \<open>2 ^ 53 + 1\<close>,
  which is the entry's absolute value, is not found.
\<close>

theorem AddPendingTransfer_float64_counterexample:
  "\<bar>sint (- 9007199254740993 :: i64)\<bar> = uint (9007199254740993 :: u64) \<and>
   UsedAddresses state53 = [- 9007199254740993] \<and>
   AddPendingTransfer idCodec noEssence [''acc'' \<mapsto> state53] ''acc'' ''TAIL'' []
     [9007199254740993]
   = (Some ErrAddrIndexNotFound, [''acc'' \<mapsto> state53])"
proof -
  have "sint (- 9007199254740993 :: i64) = - 9007199254740993" by simp
  then have "absU64 (- 9007199254740993) = 9007199254740992"
    by (simp add: absU64_def float64_rounds)
  then show ?thesis
    by (simp add: AddPendingTransfer_def mutate_def addPendingTransferMut_def idCodec_def
        state53_def)
qed

text \<open>
  Claim C6. \<^verbatim>\<open>LoadAccount\<close> never fails with the store's key-not-found error. For an id
  with no stored state it returns the empty account state (no used addresses, no pending
  transfers) and persists its encoding; when that encoding decodes to the empty state
  again, a second \<^verbatim>\<open>LoadAccount\<close> of the id returns the empty state and leaves the store
  as it is.
\<close>

theorem LoadAccount_creates_empty_account:
  "fst (LoadAccount c db accId) \<noteq> Inl ErrKeyNotFound \<and>
   (db accId = None \<longrightarrow> Marshal c newaccountstate = Some b \<longrightarrow>
      LoadAccount c db accId = (Inr newaccountstate, db(accId \<mapsto> b)) \<and>
      UsedAddresses (newaccountstate :: 'e AccountState) = [] \<and>
      PendingTransfers (newaccountstate :: 'e AccountState) = Map.empty \<and>
      (Unmarshal c b = Some newaccountstate \<longrightarrow>
         LoadAccount c (db(accId \<mapsto> b)) accId = (Inr newaccountstate, db(accId \<mapsto> b))))"
  by (auto simp: LoadAccount_def read_def newaccountstate_def split: option.splits sum.splits)

theorem LoadAccount_creates_empty_account_witness:
  "LoadAccount idCodec Map.empty ''acc'' = (Inr newaccountstate, [''acc'' \<mapsto> (newaccountstate :: unit AccountState)]) \<and>
   LoadAccount idCodec [''acc'' \<mapsto> (newaccountstate :: unit AccountState)] ''acc''
     = (Inr newaccountstate, [''acc'' \<mapsto> newaccountstate])"
  using LoadAccount_creates_empty_account [of "idCodec :: (unit AccountState, unit) codec" Map.empty "''acc''" newaccountstate]
  apply (simp only: idCodec_def codec.simps simp_thms fun_upd_same option.simps)
  apply blast
  done

text \<open>
  Claim C10. For an id with no stored state, \<^verbatim>\<open>MarkDepositAddresses\<close>,
  \<^verbatim>\<open>AddPendingTransfer\<close>, \<^verbatim>\<open>RemovePendingTransfer\<close> and \<^verbatim>\<open>AddTailHash\<close> each fail with
  the store's key-not-found error and leave the store unchanged, so none of them creates
  the account; \<^verbatim>\<open>LoadAccount\<close> stores the id, and after it \<^verbatim>\<open>MarkDepositAddresses\<close> no
  longer fails with key-not-found.
\<close>

theorem mutation_of_unknown_account_fails:
  assumes "db accId = None"
  shows "MarkDepositAddresses c db accId indices = (Some ErrKeyNotFound, db) \<and>
         AddPendingTransfer c ess db accId tailTx bundleTrytes indices = (Some ErrKeyNotFound, db) \<and>
         RemovePendingTransfer c db accId tailTx = (Some ErrKeyNotFound, db) \<and>
         AddTailHash c db accId tailTx newTailTxHash = (Some ErrKeyNotFound, db) \<and>
         (Marshal c newaccountstate = Some b \<longrightarrow>
            snd (LoadAccount c db accId) = db(accId \<mapsto> b) \<and>
            fst (MarkDepositAddresses c (snd (LoadAccount c db accId)) accId indices) \<noteq> Some ErrKeyNotFound)"
  using assms
  by (auto simp: MarkDepositAddresses_def AddPendingTransfer_def RemovePendingTransfer_def
      AddTailHash_def mutate_def LoadAccount_def read_def split: option.splits)

theorem mutation_of_unknown_account_fails_witness:
  "MarkDepositAddresses idCodec (Map.empty :: unit AccountState store) ''acc'' [5] = (Some ErrKeyNotFound, Map.empty) \<and>
   AddPendingTransfer idCodec noEssence (Map.empty :: unit AccountState store) ''acc'' ''TAIL'' [] [5] = (Some ErrKeyNotFound, Map.empty) \<and>
   RemovePendingTransfer idCodec (Map.empty :: unit AccountState store) ''acc'' ''TAIL'' = (Some ErrKeyNotFound, Map.empty) \<and>
   AddTailHash idCodec (Map.empty :: unit AccountState store) ''acc'' ''TAIL'' ''TAILB'' = (Some ErrKeyNotFound, Map.empty) \<and>
   snd (LoadAccount idCodec (Map.empty :: unit AccountState store) ''acc'') = [''acc'' \<mapsto> newaccountstate] \<and>
   MarkDepositAddresses idCodec (snd (LoadAccount idCodec (Map.empty :: unit AccountState store) ''acc'')) ''acc'' [5]
     = (None, [''acc'' \<mapsto> \<lparr>UsedAddresses = [-5], PendingTransfers = Map.empty, lastKeyIndex = 0\<rparr>])"
  using mutation_of_unknown_account_fails [of "Map.empty :: unit AccountState store" "''acc''" "idCodec :: (unit AccountState, unit) codec" "[5]"
      noEssence "''TAIL''" "[]" "''TAILB''" newaccountstate]
  by (simp add: idCodec_def MarkDepositAddresses_def mutate_def newaccountstate_def)

section \<open>GetInputs: theorems\<close>

text \<open>Below \<open>2 ^ 64\<close> the \<^verbatim>\<open>uint64\<close> totals are the sums of the integers.\<close>

lemma uint_sum_list_no_overflow:
  "(\<Sum>w\<leftarrow>ws. uint w) < 2 ^ 64 \<Longrightarrow> uint (sum_list ws :: u64) = (\<Sum>w\<leftarrow>ws. uint w)"
proof (induction ws)
  case Nil
  then show ?case by simp
next
  case (Cons w ws)
  have nn: "0 \<le> (\<Sum>w\<leftarrow>ws. uint w)" by (rule sum_list_nonneg) auto
  have "(\<Sum>w\<leftarrow>ws. uint w) \<le> uint w + (\<Sum>w\<leftarrow>ws. uint w)"
    using uint_nonnegative [of w] by linarith
  moreover from Cons.prems have "uint w + (\<Sum>w\<leftarrow>ws. uint w) < 2 ^ 64" by simp
  ultimately have "(\<Sum>w\<leftarrow>ws. uint w) < 2 ^ 64" by linarith
  with Cons.IH have ih: "uint (sum_list ws) = (\<Sum>w\<leftarrow>ws. uint w)" by simp
  have "uint (w + sum_list ws) = (uint w + uint (sum_list ws)) mod 2 ^ 64"
    by (simp add: uint_word_ariths)
  also have "\<dots> = uint w + (\<Sum>w\<leftarrow>ws. uint w)"
    using Cons.prems nn ih by simp
  finally show ?case by simp
qed

lemma uint_balanceSum:
  "(\<Sum>i\<leftarrow>inputs. uint (Balance i)) < 2 ^ 64 \<Longrightarrow>
   uint (balanceSum inputs) = (\<Sum>i\<leftarrow>inputs. uint (Balance i))"
  using uint_sum_list_no_overflow [of "map Balance inputs"]
  by (simp add: balanceSum_def o_def)

lemma inputObjectsFrom_char:
  "i + length addresses \<le> length balances \<Longrightarrow>
   inputObjectsFrom i addresses balances start secLvl addrs totalBalance =
     Inr \<lparr>Inputs.Inputs = addrs @
            map (\<lambda>(i, address). \<lparr>Input.Address = address, Security = secLvl,
                             KeyIndex = start + of_nat i, Balance = balances ! i\<rparr>)
              (filter (\<lambda>(i, address). 0 < balances ! i) (enumerate i addresses)),
          TotalBalance = totalBalance +
            balanceSum (map (\<lambda>(i, address). \<lparr>Input.Address = address, Security = secLvl,
                             KeyIndex = start + of_nat i, Balance = balances ! i\<rparr>)
              (filter (\<lambda>(i, address). 0 < balances ! i) (enumerate i addresses)))\<rparr>"
proof (induction addresses arbitrary: i addrs totalBalance)
  case Nil
  then show ?case by (simp add: balanceSum_def)
next
  case (Cons a as)
  then have "Suc i + length as \<le> length balances" and "\<not> length balances \<le> i" by simp_all
  with Cons.IH [of "Suc i"] show ?case
    by (simp add: balanceSum_def Let_def word_greater_zero_iff add.assoc)
qed

lemma GetInputObjects_char:
  "length addresses \<le> length balances \<Longrightarrow>
   GetInputObjects addresses balances start secLvl =
     Inr \<lparr>Inputs.Inputs = positiveInputs addresses balances start secLvl,
          TotalBalance = balanceSum (positiveInputs addresses balances start secLvl)\<rparr>"
  using inputObjectsFrom_char [of 0 addresses balances start secLvl "[]" 0]
  by (simp add: GetInputObjects_def positiveInputs_def)

lemma thresholdLoop_char:
  assumes "TotalBalance acc = balanceSum (Inputs.Inputs acc)"
    and "\<forall>m<length (Inputs.Inputs acc). balanceSum (take m (Inputs.Inputs acc @ rest)) < threshold"
    and "threshold \<le> balanceSum (Inputs.Inputs acc @ rest)"
  shows "\<exists>n\<le>length (Inputs.Inputs acc @ rest).
           thresholdLoop threshold rest acc =
             \<lparr>Inputs.Inputs = take n (Inputs.Inputs acc @ rest),
              TotalBalance = balanceSum (take n (Inputs.Inputs acc @ rest))\<rparr> \<and>
           threshold \<le> balanceSum (take n (Inputs.Inputs acc @ rest)) \<and>
           (\<forall>m<n. balanceSum (take m (Inputs.Inputs acc @ rest)) < threshold)"
  using assms
proof (induction rest arbitrary: acc)
  case Nil
  then show ?case
    by (intro exI [of _ "length (Inputs.Inputs acc)"]) simp
next
  case (Cons x xs)
  show ?case
  proof (cases "threshold \<le> TotalBalance acc")
    case True
    with Cons.prems show ?thesis
      by (intro exI [of _ "length (Inputs.Inputs acc)"]) simp
  next
    case False
    define acc' where "acc' = \<lparr>Inputs.Inputs = Inputs.Inputs acc @ [x],
              TotalBalance = TotalBalance acc + Balance x\<rparr>"
    have whole: "Inputs.Inputs acc' @ xs = Inputs.Inputs acc @ x # xs"
      by (simp add: acc'_def)
    have 1: "TotalBalance acc' = balanceSum (Inputs.Inputs acc')"
      using Cons.prems(1) by (simp add: acc'_def balanceSum_def)
    have 2: "\<forall>m<length (Inputs.Inputs acc'). balanceSum (take m (Inputs.Inputs acc' @ xs)) < threshold"
    proof (intro allI impI)
      fix m assume "m < length (Inputs.Inputs acc')"
      then consider "m < length (Inputs.Inputs acc)" | "m = length (Inputs.Inputs acc)"
        by (auto simp: acc'_def less_Suc_eq)
      then show "balanceSum (take m (Inputs.Inputs acc' @ xs)) < threshold"
      proof cases
        case 1
        then show ?thesis using Cons.prems(2) whole by simp
      next
        case 2
        then show ?thesis using False Cons.prems(1) whole by simp
      qed
    qed
    have 3: "threshold \<le> balanceSum (Inputs.Inputs acc' @ xs)"
      using Cons.prems(3) whole by simp
    from Cons.IH [OF 1 2 3] False show ?thesis
      unfolding whole by (simp add: acc'_def)
  qed
qed

text \<open>
  Claim C7. Let validation pass, the node return the addresses and a balance for each,
  and a threshold be set. The available inputs are those of the addresses with a positive
  balance, in allocation order; totals are \<^verbatim>\<open>uint64\<close> sums, as the code computes them. If
  the total of the available inputs is below the threshold, \<^verbatim>\<open>GetInputs\<close> fails with
  \<open>ErrInsufficientBalance\<close>. Otherwise it returns the shortest prefix of the available
  inputs whose total reaches the threshold (every shorter prefix stays below it), with
  that total, and nothing of the rest.
\<close>

theorem GetInputs_threshold_first_fit:
  assumes "ValidateGetInputs api seed (getInputDefaultOptions api options0) = None"
    and "GetNewAddress api seed (ToGetNewAddressOptions api (getInputDefaultOptions api options0))
           = Inr addresses"
    and "GetBalances api addresses = Inr balances"
    and "length addresses \<le> length balances"
    and "Threshold (getInputDefaultOptions api options0) = Some threshold"
  shows "let opts = ToGetNewAddressOptions api (getInputDefaultOptions api options0);
             available = positiveInputs addresses balances (Index opts)
                           (GetNewAddressOptions.Security opts)
         in if balanceSum available < threshold
            then GetInputs api seed options0 = Inl ErrInsufficientBalance
            else \<exists>n\<le>length available.
                   GetInputs api seed options0 =
                     Inr \<lparr>Inputs.Inputs = take n available,
                          TotalBalance = balanceSum (take n available)\<rparr> \<and>
                   threshold \<le> balanceSum (take n available) \<and>
                   (\<forall>m<n. balanceSum (take m available) < threshold)"
proof -
  define opts where "opts = ToGetNewAddressOptions api (getInputDefaultOptions api options0)"
  define available where "available = positiveInputs addresses balances (Index opts)
                           (GetNewAddressOptions.Security opts)"
  have obj: "GetInputObjects addresses balances (Index opts) (GetNewAddressOptions.Security opts)
      = Inr \<lparr>Inputs.Inputs = available, TotalBalance = balanceSum available\<rparr>"
    unfolding available_def by (rule GetInputObjects_char [OF assms(4)])
  have run: "GetInputs api seed options0 =
      (if balanceSum available < threshold then Inl ErrInsufficientBalance
       else Inr (thresholdLoop threshold available \<lparr>Inputs.Inputs = [], TotalBalance = 0\<rparr>))"
    using assms(1,2,3,5) obj by (simp add: GetInputs_def Let_def opts_def)
  have "if balanceSum available < threshold
            then GetInputs api seed options0 = Inl ErrInsufficientBalance
            else \<exists>n\<le>length available.
                   GetInputs api seed options0 =
                     Inr \<lparr>Inputs.Inputs = take n available,
                          TotalBalance = balanceSum (take n available)\<rparr> \<and>
                   threshold \<le> balanceSum (take n available) \<and>
                   (\<forall>m<n. balanceSum (take m available) < threshold)"
  proof (cases "balanceSum available < threshold")
    case True
    then show ?thesis using run by simp
  next
    case False
    then have le: "threshold \<le> balanceSum available" by simp
    from thresholdLoop_char [of "\<lparr>Inputs.Inputs = [], TotalBalance = 0\<rparr>" available threshold] le
    obtain n where "n \<le> length available"
      "thresholdLoop threshold available \<lparr>Inputs.Inputs = [], TotalBalance = 0\<rparr> =
             \<lparr>Inputs.Inputs = take n available, TotalBalance = balanceSum (take n available)\<rparr>"
      "threshold \<le> balanceSum (take n available)"
      "\<forall>m<n. balanceSum (take m available) < threshold"
      by (auto simp: balanceSum_def)
    then have "\<exists>n\<le>length available.
                   GetInputs api seed options0 =
                     Inr \<lparr>Inputs.Inputs = take n available,
                          TotalBalance = balanceSum (take n available)\<rparr> \<and>
                   threshold \<le> balanceSum (take n available) \<and>
                   (\<forall>m<n. balanceSum (take m available) < threshold)"
      using run False by auto
    then show ?thesis by (subst if_not_P [OF False])
  qed
  then show ?thesis
    unfolding Let_def opts_def [symmetric] available_def [symmetric] .
qed

theorem GetInputs_threshold_first_fit_witness:
  "GetInputs node0 ''SEED'' \<lparr>Start = 0, End = None, Threshold = Some 20, Security = 2\<rparr>
     = Inl ErrInsufficientBalance \<and>
   GetInputs node0 ''SEED'' \<lparr>Start = 0, End = None, Threshold = Some 6, Security = 2\<rparr>
     = Inr \<lparr>Inputs.Inputs =
             [\<lparr>Input.Address = ''B'', Security = 2, KeyIndex = 1, Balance = 3\<rparr>,
              \<lparr>Input.Address = ''C'', Security = 2, KeyIndex = 2, Balance = 4\<rparr>],
           TotalBalance = 7\<rparr>"
proof -
  have "GetInputs node0 ''SEED'' \<lparr>Start = 0, End = None, Threshold = Some 20, Security = 2\<rparr>
     = Inl ErrInsufficientBalance"
    using GetInputs_threshold_first_fit [of node0 "''SEED''"
        "\<lparr>Start = 0, End = None, Threshold = Some 20, Security = 2\<rparr>"
        "[''A'', ''B'', ''C'', ''D'']" "[0, 3, 4, 5]" 20]
    by (simp add: node0_def balance0_def positiveInputs_def balanceSum_def enumerate_eq_zip upt_rec)
  moreover have "GetInputs node0 ''SEED'' \<lparr>Start = 0, End = None, Threshold = Some 6, Security = 2\<rparr>
     = Inr \<lparr>Inputs.Inputs =
             [\<lparr>Input.Address = ''B'', Security = 2, KeyIndex = 1, Balance = 3\<rparr>,
              \<lparr>Input.Address = ''C'', Security = 2, KeyIndex = 2, Balance = 4\<rparr>],
           TotalBalance = 7\<rparr>"
    by (simp add: GetInputs_def GetInputObjects_def node0_def balance0_def)
  ultimately show ?thesis by simp
qed

section \<open>GetBundle: theorems\<close>

lemma fetchedTx_SomeD:
  "fetchedTx api h = Some tx \<Longrightarrow>
   ValidateTransactionHashes api h = None \<and>
   (\<exists>trytes rest. GetTrytes api h = Inr (trytes # rest) \<and> AsTransactionObject api trytes h = Inr tx)"
  by (auto simp: fetchedTx_def split: option.splits sum.splits list.splits)

lemma trunkChain_nonempty: "trunkChain api h txs \<Longrightarrow> txs \<noteq> []"
  by (cases txs) simp_all

lemma TraverseBundle_follows_chain:
  "trunkChain api h txs \<Longrightarrow> bndl \<noteq> [] \<or> IsTailTransaction (hd txs) \<Longrightarrow>
   TraverseBundle api h bndl fetched =
     Some (Inr (bndl @ txs), fetched @ h # map TrunkTransaction (butlast txs))"
proof (induction txs arbitrary: h bndl fetched)
  case Nil
  then show ?case by simp
next
  case (Cons tx rest)
  from Cons.prems(1) have f: "fetchedTx api h = Some tx" by simp
  from fetchedTx_SomeD [OF f] obtain trytes more where
    v: "ValidateTransactionHashes api h = None" and
    g: "GetTrytes api h = Inr (trytes # more)" and
    a: "AsTransactionObject api trytes h = Inr tx"
    by blast
  from Cons.prems(2) have tail: "\<not> (length bndl = 0 \<and> \<not> IsTailTransaction tx)" by auto
  show ?case
  proof (cases "CurrentIndex tx = LastIndex tx")
    case True
    with Cons.prems(1) have "rest = []" by simp
    with True v g a tail show ?thesis
      by (subst TraverseBundle.simps) simp
  next
    case False
    with Cons.prems(1) have c: "trunkChain api (TrunkTransaction tx) rest" by simp
    then have ne: "rest \<noteq> []" by (rule trunkChain_nonempty)
    have "TraverseBundle api h bndl fetched =
            TraverseBundle api (TrunkTransaction tx) (bndl @ [tx]) (fetched @ [h])"
      using False v g a tail by (subst TraverseBundle.simps) auto
    also have "\<dots> = Some (Inr ((bndl @ [tx]) @ rest),
                   (fetched @ [h]) @ TrunkTransaction tx # map TrunkTransaction (butlast rest))"
      by (rule Cons.IH [OF c]) simp
    finally show ?thesis using ne by simp
  qed
qed

text \<open>
  Claim C8. If the transaction fetched for \<open>tailTxHash\<close> has \<open>currentIndex \<noteq> 0\<close>,
  \<^verbatim>\<open>GetBundle\<close> returns \<open>ErrInvalidTailTransaction\<close> having fetched \<open>tailTxHash\<close> and nothing
  else. If the trunk links from \<open>tailTxHash\<close> lead through the transactions \<open>bndl\<close> to a
  first one with \<open>currentIndex = lastIndex\<close> and \<open>bndl\<close> starts with a tail, \<^verbatim>\<open>GetBundle\<close>
  returns: it has fetched exactly the hashes along the chain, appended every transaction
  in order, and hands back \<open>bndl\<close> when \<^verbatim>\<open>ValidBundle\<close> accepts it and the validation error
  otherwise.
\<close>

theorem GetBundle_tail_check_and_traversal:
  "(fetchedTx api tailTxHash = Some tx \<and> CurrentIndex tx \<noteq> 0 \<longrightarrow>
      GetBundle api tailTxHash = Some (Inl ErrInvalidTailTransaction, [tailTxHash])) \<and>
   (trunkChain api tailTxHash bndl \<and> CurrentIndex (hd bndl) = 0 \<longrightarrow>
      GetBundle api tailTxHash =
        Some (case ValidBundle api bndl of Some err \<Rightarrow> Inl err | None \<Rightarrow> Inr bndl,
              tailTxHash # map TrunkTransaction (butlast bndl)))"
proof (intro conjI impI)
  assume h: "fetchedTx api tailTxHash = Some tx \<and> CurrentIndex tx \<noteq> 0"
  from fetchedTx_SomeD [of api tailTxHash tx] h obtain trytes more where
    v: "ValidateTransactionHashes api tailTxHash = None" and
    g: "GetTrytes api tailTxHash = Inr (trytes # more)" and
    a: "AsTransactionObject api trytes tailTxHash = Inr tx"
    by blast
  have "TraverseBundle api tailTxHash [] [] = Some (Inl ErrInvalidTailTransaction, [tailTxHash])"
    using v g a h by (subst TraverseBundle.simps) (simp add: IsTailTransaction_def)
  with v show "GetBundle api tailTxHash = Some (Inl ErrInvalidTailTransaction, [tailTxHash])"
    by (simp add: GetBundle_def)
next
  assume h: "trunkChain api tailTxHash bndl \<and> CurrentIndex (hd bndl) = 0"
  then have "bndl \<noteq> []" using trunkChain_nonempty by blast
  with h have v: "ValidateTransactionHashes api tailTxHash = None"
    by (cases bndl) (auto dest: fetchedTx_SomeD)
  from h have "TraverseBundle api tailTxHash [] [] =
      Some (Inr ([] @ bndl), [] @ tailTxHash # map TrunkTransaction (butlast bndl))"
    by (intro TraverseBundle_follows_chain) (simp_all add: IsTailTransaction_def)
  with v show "GetBundle api tailTxHash =
        Some (case ValidBundle api bndl of Some err \<Rightarrow> Inl err | None \<Rightarrow> Inr bndl,
              tailTxHash # map TrunkTransaction (butlast bndl))"
    by (simp add: GetBundle_def split: option.splits)
qed

theorem GetBundle_tail_check_and_traversal_witness:
  "GetBundle node0 ''T1'' = Some (Inl ErrInvalidTailTransaction, [''T1'']) \<and>
   GetBundle node0 ''T0'' =
     Some (Inr [\<lparr>Transaction.Address = ''A'', Value = 0, Tag = [], Timestamp = 0, CurrentIndex = 0,
                 LastIndex = 1, TrunkTransaction = ''T1'', SignatureMessageFragment = []\<rparr>,
                \<lparr>Transaction.Address = ''A'', Value = 0, Tag = [], Timestamp = 0, CurrentIndex = 1,
                 LastIndex = 1, TrunkTransaction = ''T2'', SignatureMessageFragment = []\<rparr>],
           [''T0'', ''T1''])"
proof -
  have "GetBundle node0 ''T1'' = Some (Inl ErrInvalidTailTransaction, [''T1''])"
    using GetBundle_tail_check_and_traversal [of node0 "''T1''"
        "\<lparr>Transaction.Address = ''A'', Value = 0, Tag = [], Timestamp = 0, CurrentIndex = 1,
                 LastIndex = 1, TrunkTransaction = ''T2'', SignatureMessageFragment = []\<rparr>"]
    by (simp add: fetchedTx_def node0_def tx0_def)
  moreover have "GetBundle node0 ''T0'' =
     Some (Inr [\<lparr>Transaction.Address = ''A'', Value = 0, Tag = [], Timestamp = 0, CurrentIndex = 0,
                 LastIndex = 1, TrunkTransaction = ''T1'', SignatureMessageFragment = []\<rparr>,
                \<lparr>Transaction.Address = ''A'', Value = 0, Tag = [], Timestamp = 0, CurrentIndex = 1,
                 LastIndex = 1, TrunkTransaction = ''T2'', SignatureMessageFragment = []\<rparr>],
           [''T0'', ''T1''])"
    using GetBundle_tail_check_and_traversal [of node0 "''T0''" _
        "[\<lparr>Transaction.Address = ''A'', Value = 0, Tag = [], Timestamp = 0, CurrentIndex = 0,
                 LastIndex = 1, TrunkTransaction = ''T1'', SignatureMessageFragment = []\<rparr>,
                \<lparr>Transaction.Address = ''A'', Value = 0, Tag = [], Timestamp = 0, CurrentIndex = 1,
                 LastIndex = 1, TrunkTransaction = ''T2'', SignatureMessageFragment = []\<rparr>]"]
    by (simp add: fetchedTx_def node0_def tx0_def)
  ultimately show ?thesis by simp
qed

section \<open>PrepareTransfers: theorems\<close>

subsection \<open>Transaction values\<close>

lemma sum_zero_tail:
  "sum_list (map (\<lambda>i. if i = 0 then v else (0::u64)) [Suc k..<n]) = 0"
  by (induction n) auto

lemma sum_first_only:
  "0 < n \<Longrightarrow> sum_list (map (\<lambda>i. if i = 0 then v else (0::u64)) [0..<n]) = v"
  by (simp add: upt_conv_Cons sum_zero_tail)

lemma AddEntry_Value_sum:
  "sum_list (map Transaction.Value (AddEntry txs bndlEntry)) =
     sum_list (map Transaction.Value txs) + BundleEntry.Value bndlEntry"
proof -
  have n: "0 < (if Length bndlEntry = 0 then 1 else unat (Length bndlEntry))"
    by (simp add: unat_gt_0)
  show ?thesis
    unfolding AddEntry_def Let_def
    by (simp add: o_def sum_first_only [OF n])
qed

lemma foldl_AddEntry_Value_sum:
  "sum_list (map Transaction.Value (foldl AddEntry txs entries)) =
     sum_list (map Transaction.Value txs) + sum_list (map BundleEntry.Value entries)"
  by (induction entries arbitrary: txs) (simp_all add: AddEntry_Value_sum add.assoc)

lemma TransfersToBundleEntries_Values:
  "TransfersToBundleEntries api timestamp transfers = Inr outEntries \<Longrightarrow>
   map BundleEntry.Value outEntries = map Transfer.Value transfers"
  by (induction transfers arbitrary: outEntries) (auto simp: Let_def split: sum.splits)

lemma addInputTransactions_char:
  "map (RemoveChecksum api \<circ> Input.Address) inputs = map Inr addrs \<Longrightarrow>
   addInputTransactions api timestamp inputs inputsTotal txs =
     Inr (inputsTotal + balanceSum inputs,
          foldl AddEntry txs (map2 (inputEntry timestamp) inputs addrs))"
proof (induction inputs arbitrary: addrs inputsTotal txs)
  case Nil
  then show ?case by (simp add: balanceSum_def)
next
  case (Cons input inputs)
  then obtain a as where "addrs = a # as" by (cases addrs) auto
  with Cons show ?case by (simp add: balanceSum_def add.assoc)
qed

lemma inputEntry_Value_sum:
  "length addrs = length inputs \<Longrightarrow>
   sum_list (map BundleEntry.Value (map2 (inputEntry timestamp) inputs addrs)) = - balanceSum inputs"
  by (induction inputs addrs rule: list_induct2') (simp_all add: balanceSum_def inputEntry_def)

lemma sint_below_half: "w < 2 ^ 63 \<Longrightarrow> sint (w :: u64) = uint w"
proof -
  assume "w < 2 ^ 63"
  then have "uint w < 2 ^ 63" by (simp add: word_less_def)
  moreover have "0 \<le> uint w" by simp
  ultimately have "signed_take_bit 63 (uint w) = uint w"
    by (intro signed_take_bit_int_eq_self) linarith+
  then show ?thesis by (simp add: sint_uint)
qed

lemma sint_minus_le_half: "b \<le> 2 ^ 63 \<Longrightarrow> sint (- b :: u64) = - uint b"
proof -
  assume "b \<le> 2 ^ 63"
  then have "uint b \<le> 2 ^ 63" by (simp add: word_le_def)
  moreover have "0 \<le> uint b" by simp
  moreover have "(0::int) < 2 ^ 63" by simp
  ultimately have *: "signed_take_bit 63 (- uint b) = - uint b"
    by (intro signed_take_bit_int_eq_self) linarith+
  have "sint (- b) = sint (word_of_int (- uint b) :: u64)" by simp
  also have "\<dots> = signed_take_bit 63 (- uint b)"
    by (subst sint_sbintrunc') simp
  finally show ?thesis using * by simp
qed

lemma sint_zero_tail:
  "sum_list (map (\<lambda>i. sint (if i = 0 then v else (0::u64))) [Suc k..<n]) = 0"
  by (induction n) auto

lemma AddEntry_sint_sum:
  "(\<Sum>tx\<leftarrow>AddEntry txs bndlEntry. sint (Transaction.Value tx)) =
     (\<Sum>tx\<leftarrow>txs. sint (Transaction.Value tx)) + sint (BundleEntry.Value bndlEntry)"
proof -
  have n: "0 < (if Length bndlEntry = 0 then 1 else unat (Length bndlEntry))"
    by (simp add: unat_gt_0)
  then have "(\<Sum>i\<leftarrow>[0..<(if Length bndlEntry = 0 then 1 else unat (Length bndlEntry))].
               sint (if i = 0 then BundleEntry.Value bndlEntry else 0)) =
             sint (BundleEntry.Value bndlEntry)"
    by (simp add: upt_conv_Cons sint_zero_tail del: upt_Suc)
  then show ?thesis
    unfolding AddEntry_def Let_def by (simp add: o_def)
qed

lemma foldl_AddEntry_sint_sum:
  "(\<Sum>tx\<leftarrow>foldl AddEntry txs entries. sint (Transaction.Value tx)) =
     (\<Sum>tx\<leftarrow>txs. sint (Transaction.Value tx)) + (\<Sum>e\<leftarrow>entries. sint (BundleEntry.Value e))"
  by (induction entries arbitrary: txs) (simp_all add: AddEntry_sint_sum)

lemma outEntries_sint_sum:
  assumes "TransfersToBundleEntries api timestamp transfers = Inr outEntries"
    and "list_all (\<lambda>t. Transfer.Value t < 2 ^ 63) transfers"
  shows "(\<Sum>e\<leftarrow>outEntries. sint (BundleEntry.Value e)) = (\<Sum>t\<leftarrow>transfers. uint (Transfer.Value t))"
proof -
  have "(\<Sum>e\<leftarrow>outEntries. sint (BundleEntry.Value e)) = sum_list (map sint (map BundleEntry.Value outEntries))"
    by (simp add: o_def)
  also have "\<dots> = (\<Sum>t\<leftarrow>transfers. sint (Transfer.Value t))"
    by (simp add: TransfersToBundleEntries_Values [OF assms(1)] o_def)
  also have "\<dots> = (\<Sum>t\<leftarrow>transfers. uint (Transfer.Value t))"
    using assms(2) by (induction transfers) (simp_all add: sint_below_half)
  finally show ?thesis .
qed

lemma inputEntries_sint_sum:
  "length addrs = length inputs \<Longrightarrow> list_all (\<lambda>i. Balance i \<le> 2 ^ 63) inputs \<Longrightarrow>
   (\<Sum>e\<leftarrow>map2 (inputEntry timestamp) inputs addrs. sint (BundleEntry.Value e)) =
     - (\<Sum>i\<leftarrow>inputs. uint (Balance i))"
  by (induction inputs addrs rule: list_induct2')
     (simp_all add: inputEntry_def sint_minus_le_half)

lemma uint_totalTransferValue:
  "(\<Sum>t\<leftarrow>transfers. uint (Transfer.Value t)) < 2 ^ 64 \<Longrightarrow>
   uint (totalTransferValue transfers) = (\<Sum>t\<leftarrow>transfers. uint (Transfer.Value t))"
  using uint_sum_list_no_overflow [of "map Transfer.Value transfers"]
  by (simp add: totalTransferValue_def o_def)

subsection \<open>The stages of PrepareTransfers\<close>

lemma PrepareTransfers_stages:
  assumes "getPrepareTransfersDefaultOptions api options0 = options"
    and "ValidateSeedSecurity api seed (PrepareTransfersOptions.Security options) = None"
    and "validRemainderAddress api options"
    and "TransfersToBundleEntries api (propsTimestamp api options) transfers = Inr outEntries"
    and "gatherInputs api seed (PrepareTransfersOptions.Security options)
           (totalTransferValue transfers) (PrepareTransfersOptions.Inputs options) = Inr inputs"
    and "map (RemoveChecksum api \<circ> Input.Address) inputs = map Inr addrs"
  shows "PrepareTransfers api seed transfers options0 =
     (if balanceSum inputs < totalTransferValue transfers then Inl ErrInsufficientBalance
      else
        (case addRemainder api seed (PrepareTransfersOptions.Security options)
                (propsTimestamp api options) (totalTransferValue transfers) inputs
                (RemainderAddress options)
                (foldl AddEntry [] (outEntries @
                   map2 (inputEntry (propsTimestamp api options)) inputs addrs)) of
           Inl err \<Rightarrow> Inl err
         | Inr txs' \<Rightarrow>
             if sendsBackToInputs txs' inputs then Inl ErrSendingBackToInputs
             else FinalizeAndSign api seed txs' inputs))"
  using assms(1-5) addInputTransactions_char [OF assms(6)]
  by (simp add: PrepareTransfers_def Let_def)

lemma gatherInputs_supplied:
  "balanceSum inputs = totalValue \<Longrightarrow> gatherInputs api seed security totalValue inputs = Inr inputs"
  by (cases inputs) (auto simp: gatherInputs_def balanceSum_def)

lemma assembled_Value_sum:
  assumes "TransfersToBundleEntries api timestamp transfers = Inr outEntries"
    and "length addrs = length inputs"
  shows "sum_list (map Transaction.Value
            (foldl AddEntry [] (outEntries @ map2 (inputEntry timestamp) inputs addrs))) =
         totalTransferValue transfers - balanceSum inputs"
  using TransfersToBundleEntries_Values [OF assms(1)] inputEntry_Value_sum [OF assms(2)]
  by (simp add: foldl_AddEntry_Value_sum totalTransferValue_def)

lemma map_Inr_length: "map f xs = map Inr ys \<Longrightarrow> length ys = length xs"
  by (metis length_map)

lemma sendsBackToInputs_iff:
  "sendsBackToInputs txs inputs \<longleftrightarrow>
     (\<exists>tx\<in>set txs. 0 < sint (Transaction.Value tx) \<and>
        (\<exists>input\<in>set inputs. Input.Address input = Transaction.Address tx))"
  by (auto simp: sendsBackToInputs_def list_ex_iff word_sle_eq not_le)

subsection \<open>Runs on the concrete node\<close>

lemmas run_defs = node0_def balance0_def inputB_def transferTo_def optionsWith_def
  validRemainderAddress_def propsTimestamp_def totalTransferValue_def balanceSum_def
  inputEntry_def AddEntry_def sendsBackToInputs_def word_sless_alt word_sle_eq

lemma node0_options: "getPrepareTransfersDefaultOptions node0 (optionsWith inputs) = optionsWith inputs"
  by (simp add: node0_def)

lemma node0_validate:
  "ValidateSeedSecurity node0 ''SEED'' (PrepareTransfersOptions.Security (optionsWith inputs)) = None"
  by (simp add: node0_def)

lemma node0_remainder: "validRemainderAddress node0 (optionsWith inputs)"
  by (simp add: validRemainderAddress_def optionsWith_def)

lemma node0_entries:
  "TransfersToBundleEntries node0 (propsTimestamp node0 (optionsWith inputs)) [transferTo addr v]
     = Inr [entryTo addr v]"
  by (simp add: node0_def transferTo_def entryTo_def propsTimestamp_def optionsWith_def)

lemma node0_checksums:
  "map (RemoveChecksum node0 \<circ> Input.Address) [inputB] = map Inr [''B'']"
  by (simp add: node0_def inputB_def)

lemma node0_supplied:
  "gatherInputs node0 ''SEED'' (PrepareTransfersOptions.Security (optionsWith [inputB]))
     (totalTransferValue [transferTo addr v]) (PrepareTransfersOptions.Inputs (optionsWith [inputB]))
     = Inr [inputB]"
  by (simp add: gatherInputs_def optionsWith_def)

subsection \<open>Results\<close>

text \<open>
  Whatever the node and the total: with no inputs supplied, the one question put to
  \<^verbatim>\<open>WereAddressesSpentFrom\<close> is about the empty list of addresses.
\<close>

lemma gatherInputs_asks_about_no_address:
  "gatherInputs api seed security totalValue [] =
     (if totalValue \<noteq> 0
      then (case GetInputs api seed
                    \<lparr>Start = 0, End = None, Threshold = Some totalValue, Security = security\<rparr> of
              Inl err \<Rightarrow> Inl err
            | Inr inputs \<Rightarrow>
                (case WereAddressesSpentFrom api [] of
                   Inl err \<Rightarrow> Inl err
                 | Inr states \<Rightarrow> removeSpent 0 states (Inputs.Inputs inputs)))
      else Inr [])"
  by (simp add: gatherInputs_def Let_def split: sum.splits)

text \<open>
  Claim C1. With a nonzero total and no inputs supplied, \<^verbatim>\<open>PrepareTransfers\<close> gathers
  inputs with the total as threshold and is meant to drop every gathered input whose
  address the node reports as spent from. The addresses it asks the node about are those
  at the positions of \<^verbatim>\<open>props.Inputs\<close>, which is empty in this branch: it asks about no
  address and drops nothing. On the concrete node, \<open>B\<close> holds 3 and has been spent from; a
  transfer of 1 to \<open>D\<close> with no inputs supplied gathers the input at \<open>B\<close>, keeps it, and
  the prepared bundle spends from \<open>B\<close>.
\<close>

theorem gathered_spent_input_is_used:
  "WereAddressesSpentFrom node0 [''B''] = Inr [True] \<and>
   gatherInputs node0 ''SEED'' 2 1 [] =
     Inr [\<lparr>Input.Address = ''B'', Security = 2, KeyIndex = 1, Balance = 3\<rparr>] \<and>
   PrepareTransfers node0 ''SEED'' [transferTo ''D'' 1] (optionsWith []) = Inr [''B'']"
proof (intro conjI)
  show "WereAddressesSpentFrom node0 [''B''] = Inr [True]"
    by (simp add: node0_def)
  show g: "gatherInputs node0 ''SEED'' 2 1 [] =
     Inr [\<lparr>Input.Address = ''B'', Security = 2, KeyIndex = 1, Balance = 3\<rparr>]"
    by (simp add: gatherInputs_def GetInputs_def GetInputObjects_def node0_def balance0_def)
  have a: "absU64 (- 2) = 2"
    by (simp add: absU64_def float64_def)
  show "PrepareTransfers node0 ''SEED'' [transferTo ''D'' 1] (optionsWith []) = Inr [''B'']"
    using g a
    by (simp add: PrepareTransfers_def addRemainder_def run_defs Let_def upt_rec)
qed

text \<open>
  Claim C2. Let validation pass, the transfers expand to \<open>outEntries\<close>, the checksums of
  the supplied inputs' addresses strip to \<open>addrs\<close>, and the \<^verbatim>\<open>uint64\<close> sum of the supplied
  inputs' balances equal that of the transfers' values. Then the assembled transactions
  are those of the output entries followed by those of the input entries and no other;
  their values sum to 0 in \<^verbatim>\<open>int64\<close>; \<^verbatim>\<open>PrepareTransfers\<close> hands exactly them to
  finalization and signing and returns its result, unless an output pays to an input's
  address. When moreover every value and balance fits \<^verbatim>\<open>int64\<close> and the sums are equal as
  integers, the values sum to 0 as integers.
\<close>

theorem PrepareTransfers_exact_inputs_no_remainder:
  assumes "getPrepareTransfersDefaultOptions api options0 = options"
    and "ValidateSeedSecurity api seed (PrepareTransfersOptions.Security options) = None"
    and "validRemainderAddress api options"
    and "TransfersToBundleEntries api (propsTimestamp api options) transfers = Inr outEntries"
    and "map (RemoveChecksum api \<circ> Input.Address) (PrepareTransfersOptions.Inputs options)
           = map Inr addrs"
    and "balanceSum (PrepareTransfersOptions.Inputs options) = totalTransferValue transfers"
  shows "let inputs = PrepareTransfersOptions.Inputs options;
             txs = foldl AddEntry []
                     (outEntries @ map2 (inputEntry (propsTimestamp api options)) inputs addrs)
         in sum_list (map Transaction.Value txs) = 0 \<and>
            PrepareTransfers api seed transfers options0 =
              (if sendsBackToInputs txs inputs then Inl ErrSendingBackToInputs
               else FinalizeAndSign api seed txs inputs) \<and>
            (list_all (\<lambda>t. Transfer.Value t < 2 ^ 63) transfers \<and>
             list_all (\<lambda>i. Balance i \<le> 2 ^ 63) inputs \<and>
             (\<Sum>t\<leftarrow>transfers. uint (Transfer.Value t)) = (\<Sum>i\<leftarrow>inputs. uint (Balance i)) \<longrightarrow>
             (\<Sum>tx\<leftarrow>txs. sint (Transaction.Value tx)) = 0)"
proof -
  define inputs where "inputs = PrepareTransfersOptions.Inputs options"
  define txs where "txs = foldl AddEntry []
                     (outEntries @ map2 (inputEntry (propsTimestamp api options)) inputs addrs)"
  have len: "length addrs = length inputs"
    using assms(5) unfolding inputs_def by (rule map_Inr_length)
  have sum0: "sum_list (map Transaction.Value txs) = 0"
    unfolding txs_def
    using assembled_Value_sum [OF assms(4) len] assms(6) by (simp add: inputs_def)
  have g: "gatherInputs api seed (PrepareTransfersOptions.Security options)
           (totalTransferValue transfers) (PrepareTransfersOptions.Inputs options) = Inr inputs"
    unfolding inputs_def by (rule gatherInputs_supplied [OF assms(6)])
  have c: "map (RemoveChecksum api \<circ> Input.Address) inputs = map Inr addrs"
    using assms(5) by (simp add: inputs_def)
  have rem: "addRemainder api seed security timestamp totalValue inputs remainderAddress txs = Inr txs"
    for security timestamp totalValue remainderAddress
    using sum0 by (simp add: addRemainder_def)
  have run: "PrepareTransfers api seed transfers options0 =
              (if sendsBackToInputs txs inputs then Inl ErrSendingBackToInputs
               else FinalizeAndSign api seed txs inputs)"
    using PrepareTransfers_stages [OF assms(1-4) g c, folded txs_def] assms(6) rem
    by (simp add: inputs_def)
  have int0: "(\<Sum>tx\<leftarrow>txs. sint (Transaction.Value tx)) = 0"
    if "list_all (\<lambda>t. Transfer.Value t < 2 ^ 63) transfers"
      and "list_all (\<lambda>i. Balance i \<le> 2 ^ 63) inputs"
      and "(\<Sum>t\<leftarrow>transfers. uint (Transfer.Value t)) = (\<Sum>i\<leftarrow>inputs. uint (Balance i))"
    unfolding txs_def
    using outEntries_sint_sum [OF assms(4) that(1)] inputEntries_sint_sum [OF len that(2)] that(3)
    by (simp add: foldl_AddEntry_sint_sum)
  from sum0 run int0 show ?thesis
    unfolding Let_def inputs_def [symmetric] txs_def [symmetric] by blast
qed

theorem PrepareTransfers_exact_inputs_no_remainder_witness:
  "map Transaction.Value (foldl AddEntry [] [entryTo ''D'' 3, inputEntry 0 inputB ''B'']) = [3, - 3] \<and>
   PrepareTransfers node0 ''SEED'' [transferTo ''D'' 3] (optionsWith [inputB]) = Inr [''B'']"
proof -
  have c: "map (RemoveChecksum node0 \<circ> Input.Address)
             (PrepareTransfersOptions.Inputs (optionsWith [inputB])) = map Inr [''B'']"
    using node0_checksums by (simp add: optionsWith_def)
  have e: "balanceSum (PrepareTransfersOptions.Inputs (optionsWith [inputB]))
             = totalTransferValue [transferTo ''D'' 3]"
    by (simp add: run_defs)
  have v: "map Transaction.Value (foldl AddEntry [] [entryTo ''D'' 3, inputEntry 0 inputB ''B''])
             = [3, - 3]"
    by (simp add: run_defs entryTo_def)
  from PrepareTransfers_exact_inputs_no_remainder
         [OF node0_options node0_validate node0_remainder node0_entries c e]
  have "PrepareTransfers node0 ''SEED'' [transferTo ''D'' 3] (optionsWith [inputB]) = Inr [''B'']"
    by (simp add: Let_def run_defs entryTo_def)
  with v show ?thesis by simp
qed

text \<open>
  Claim C3. Let validation pass, the transfers expand, and the inputs (supplied or
  gathered) have addresses whose checksums strip. If the \<^verbatim>\<open>uint64\<close> sum of the inputs'
  balances is below the total of the transfers' values, \<^verbatim>\<open>PrepareTransfers\<close> returns
  \<open>ErrInsufficientBalance\<close> and no bundle.
\<close>

theorem PrepareTransfers_insufficient_inputs:
  assumes "getPrepareTransfersDefaultOptions api options0 = options"
    and "ValidateSeedSecurity api seed (PrepareTransfersOptions.Security options) = None"
    and "validRemainderAddress api options"
    and "TransfersToBundleEntries api (propsTimestamp api options) transfers = Inr outEntries"
    and "gatherInputs api seed (PrepareTransfersOptions.Security options)
           (totalTransferValue transfers) (PrepareTransfersOptions.Inputs options) = Inr inputs"
    and "map (RemoveChecksum api \<circ> Input.Address) inputs = map Inr addrs"
    and "balanceSum inputs < totalTransferValue transfers"
  shows "PrepareTransfers api seed transfers options0 = Inl ErrInsufficientBalance"
  using PrepareTransfers_stages [OF assms(1-6)] assms(7) by simp

theorem PrepareTransfers_insufficient_inputs_witness:
  "PrepareTransfers node0 ''SEED'' [transferTo ''D'' 5] (optionsWith [inputB])
     = Inl ErrInsufficientBalance"
proof -
  have lt: "balanceSum [inputB] < totalTransferValue [transferTo ''D'' 5]"
    by (simp add: run_defs)
  from PrepareTransfers_insufficient_inputs
         [OF node0_options node0_validate node0_remainder node0_entries node0_supplied
             node0_checksums lt]
  show ?thesis .
qed

text \<open>
  What the check at lines 604-617 catches. Let every step before it succeed: validation,
  the expansion of the transfers, the inputs, their checksums, the balance check and the
  remainder step, which leaves the transactions \<open>txs\<close>. If some transaction of \<open>txs\<close>
  with a positive value has an address equal to the address of some input as that input
  was supplied, \<^verbatim>\<open>PrepareTransfers\<close> returns \<open>ErrSendingBackToInputs\<close> and no bundle.
\<close>

theorem PrepareTransfers_sending_back_to_inputs:
  assumes "getPrepareTransfersDefaultOptions api options0 = options"
    and "ValidateSeedSecurity api seed (PrepareTransfersOptions.Security options) = None"
    and "validRemainderAddress api options"
    and "TransfersToBundleEntries api (propsTimestamp api options) transfers = Inr outEntries"
    and "gatherInputs api seed (PrepareTransfersOptions.Security options)
           (totalTransferValue transfers) (PrepareTransfersOptions.Inputs options) = Inr inputs"
    and "map (RemoveChecksum api \<circ> Input.Address) inputs = map Inr addrs"
    and "totalTransferValue transfers \<le> balanceSum inputs"
    and "addRemainder api seed (PrepareTransfersOptions.Security options)
           (propsTimestamp api options) (totalTransferValue transfers) inputs
           (RemainderAddress options)
           (foldl AddEntry [] (outEntries @
              map2 (inputEntry (propsTimestamp api options)) inputs addrs)) = Inr txs"
    and "tx \<in> set txs" and "0 < sint (Transaction.Value tx)"
    and "input \<in> set inputs" and "Input.Address input = Transaction.Address tx"
  shows "PrepareTransfers api seed transfers options0 = Inl ErrSendingBackToInputs"
proof -
  have "sendsBackToInputs txs inputs"
    unfolding sendsBackToInputs_iff using assms(9-12) by blast
  with PrepareTransfers_stages [OF assms(1-6)] assms(7,8) show ?thesis by simp
qed

theorem PrepareTransfers_sending_back_to_inputs_witness:
  "PrepareTransfers node0 ''SEED'' [transferTo ''B'' 3] (optionsWith [inputB])
     = Inl ErrSendingBackToInputs"
proof -
  define txs where "txs = foldl AddEntry [] ([entryTo ''B'' 3] @
              map2 (inputEntry (propsTimestamp node0 (optionsWith [inputB]))) [inputB] [''B''])"
  define tx where "tx = \<lparr>Transaction.Address = ''B'', Value = 3, Tag = [], Timestamp = 0,
      CurrentIndex = 0, LastIndex = 1, TrunkTransaction = [], SignatureMessageFragment = []\<rparr>"
  have le: "totalTransferValue [transferTo ''B'' 3] \<le> balanceSum [inputB]"
    by (simp add: run_defs)
  have sum0: "sum_list (map Transaction.Value txs) = 0"
    by (simp add: txs_def run_defs entryTo_def)
  have r: "addRemainder node0 ''SEED'' (PrepareTransfersOptions.Security (optionsWith [inputB]))
           (propsTimestamp node0 (optionsWith [inputB])) (totalTransferValue [transferTo ''B'' 3])
           [inputB] (RemainderAddress (optionsWith [inputB])) txs = Inr txs"
    using sum0 by (simp add: addRemainder_def)
  have m: "tx \<in> set txs"
    by (simp add: txs_def tx_def run_defs entryTo_def)
  have p: "0 < sint (Transaction.Value tx)" by (simp add: tx_def)
  have i: "inputB \<in> set [inputB]" by simp
  have a: "Input.Address inputB = Transaction.Address tx" by (simp add: tx_def inputB_def)
  from PrepareTransfers_sending_back_to_inputs
         [OF node0_options node0_validate node0_remainder node0_entries node0_supplied
             node0_checksums le r [unfolded txs_def] m [unfolded txs_def] p i a]
  show ?thesis .
qed

text \<open>
  Claim C4. The call is to fail with \<open>ErrSendingBackToInputs\<close> whenever a transaction with
  a positive value is at the address of an input. Line 540 strips the checksum of an
  input's address for the input's own transaction, but line 613 compares the transactions'
  addresses with the input's address as supplied, checksum included. An input supplied
  with its checksum is therefore never matched: with \<open>BCHECKSUM\<close> the checksummed form of
  \<open>B\<close>, a transfer of 3 to \<open>B\<close> paid from the input at \<open>BCHECKSUM\<close> yields an output
  transaction and an input transaction both at \<open>B\<close>, passes the check, and
  \<^verbatim>\<open>PrepareTransfers\<close> returns a bundle that pays to the address it spends from.
\<close>

theorem sendsBackToInputs_misses_checksummed_input:
  "RemoveChecksum node1 (Input.Address inputBChecksum) = Inr ''B'' \<and>
   map Transaction.Address
     (foldl AddEntry [] [entryTo ''B'' 3, inputEntry 0 inputBChecksum ''B'']) = [''B'', ''B''] \<and>
   map Transaction.Value
     (foldl AddEntry [] [entryTo ''B'' 3, inputEntry 0 inputBChecksum ''B'']) = [3, - 3] \<and>
   PrepareTransfers node1 ''SEED'' [transferTo ''B'' 3] (optionsWith [inputBChecksum])
     = Inr [''B'']"
  by (simp add: PrepareTransfers_def gatherInputs_def addRemainder_def node1_def
      inputBChecksum_def run_defs entryTo_def Let_def)

text \<open>
  Claim C9. Let validation pass, no remainder address be supplied, the transfers' values
  sum to 0, and the supplied inputs be non-empty with a positive total, so that the sum of
  the transaction values is negative. Then the remainder step dereferences the nil
  remainder address: \<^verbatim>\<open>PrepareTransfers\<close> panics and returns neither a bundle nor an error
  value.
\<close>

theorem PrepareTransfers_nil_remainder_address_panics:
  assumes "getPrepareTransfersDefaultOptions api options0 = options"
    and "ValidateSeedSecurity api seed (PrepareTransfersOptions.Security options) = None"
    and "RemainderAddress options = None"
    and "TransfersToBundleEntries api (propsTimestamp api options) transfers = Inr outEntries"
    and "map (RemoveChecksum api \<circ> Input.Address) (PrepareTransfersOptions.Inputs options)
           = map Inr addrs"
    and "totalTransferValue transfers = 0"
    and "PrepareTransfersOptions.Inputs options \<noteq> []"
    and "- balanceSum (PrepareTransfersOptions.Inputs options) <s 0"
  shows "PrepareTransfers api seed transfers options0 = Inl (Panic ''nil pointer dereference'')"
proof -
  define inputs where "inputs = PrepareTransfersOptions.Inputs options"
  define txs where "txs = foldl AddEntry []
                     (outEntries @ map2 (inputEntry (propsTimestamp api options)) inputs addrs)"
  have len: "length addrs = length inputs"
    using assms(5) unfolding inputs_def by (rule map_Inr_length)
  have r: "validRemainderAddress api options"
    using assms(3) by (simp add: validRemainderAddress_def)
  have g: "gatherInputs api seed (PrepareTransfersOptions.Security options)
           (totalTransferValue transfers) (PrepareTransfersOptions.Inputs options) = Inr inputs"
    using assms(6) by (simp add: gatherInputs_def inputs_def)
  have c: "map (RemoveChecksum api \<circ> Input.Address) inputs = map Inr addrs"
    using assms(5) by (simp add: inputs_def)
  have remainder: "sum_list (map Transaction.Value txs) = - balanceSum inputs"
    unfolding txs_def using assembled_Value_sum [OF assms(4) len] assms(6) by simp
  have neg: "- balanceSum inputs <s 0" using assms(8) by (simp add: inputs_def)
  then have "\<not> 0 <s - balanceSum inputs" and "- balanceSum inputs \<noteq> 0"
    by (auto simp: word_sless_alt)
  with remainder assms(3,6)
  have "addRemainder api seed (PrepareTransfersOptions.Security options)
          (propsTimestamp api options) (totalTransferValue transfers) inputs
          (RemainderAddress options) txs = Inl (Panic ''nil pointer dereference'')"
    by (simp add: addRemainder_def)
  with PrepareTransfers_stages [OF assms(1,2) r assms(4) g c, folded txs_def] assms(6)
  show ?thesis by simp
qed

theorem PrepareTransfers_nil_remainder_address_panics_witness:
  "PrepareTransfers node0 ''SEED'' [transferTo ''D'' 0] (optionsWith [inputB])
     = Inl (Panic ''nil pointer dereference'')"
proof -
  have n: "RemainderAddress (optionsWith [inputB]) = None" by (simp add: optionsWith_def)
  have c: "map (RemoveChecksum node0 \<circ> Input.Address)
             (PrepareTransfersOptions.Inputs (optionsWith [inputB])) = map Inr [''B'']"
    using node0_checksums by (simp add: optionsWith_def)
  have z: "totalTransferValue [transferTo ''D'' 0] = 0" by (simp add: run_defs)
  have ne: "PrepareTransfersOptions.Inputs (optionsWith [inputB]) \<noteq> []"
    by (simp add: optionsWith_def)
  have neg: "- balanceSum (PrepareTransfersOptions.Inputs (optionsWith [inputB])) <s 0"
    by (simp add: run_defs)
  from PrepareTransfers_nil_remainder_address_panics
         [OF node0_options node0_validate n node0_entries c z ne neg]
  show ?thesis .
qed

end
